theory Spec2Isabelle
  imports Main "HOL-Library.AList"
begin

section \<open>Python strings\<close>

text \<open>
  The source is \<^verbatim>\<open>flaml/autogen/agent/user_proxy_agent.py\<close>, the class
  \<^verbatim>\<open>UserProxyAgent\<close>. A Python \<^verbatim>\<open>str\<close> that the agent reads or
  writes is a \<open>string\<close>, one \<open>char\<close> per code point, so the model covers texts whose
  code points are below 256. The text that \<^verbatim>\<open>json.loads\<close> builds from
  \<^verbatim>\<open>\uXXXX\<close> escapes can hold any code point and is therefore kept as the list of
  its code points.
\<close>

type_synonym pystr = "nat list"

definition codes :: "string \<Rightarrow> pystr" where
  "codes s = map of_char s"

definition LF :: char where "LF = CHR 0x0A"
definition TAB :: char where "TAB = CHR 0x09"
definition BSL :: char where "BSL = CHR 0x5C"
definition DQ :: char where "DQ = CHR 0x22"

definition is_digit :: "char \<Rightarrow> bool" where
  "is_digit c = (48 \<le> (of_char c :: nat) \<and> (of_char c :: nat) \<le> 57)"

section \<open>Python values used by the agent\<close>

text \<open>
  Exceptions are values. \<open>Raised\<close> is an exception raised inside a registered callable,
  with the text \<^verbatim>\<open>str(e)\<close>; the others are raised by the interpreter.
\<close>

datatype pyexn =
    ValueError string
  | AttributeError string
  | TypeError string
  | KeyError string
  | UnboundLocalError string
  | AssertionError string
  | RecursionError string
  | UnicodeDecodeError string
  | Raised string

fun exn_str :: "pyexn \<Rightarrow> string" where
  "exn_str (ValueError m) = m"
| "exn_str (AttributeError m) = m"
| "exn_str (TypeError m) = m"
| "exn_str (KeyError k) = [CHR 0x27] @ k @ [CHR 0x27]"
| "exn_str (UnboundLocalError m) = m"
| "exn_str (AssertionError m) = m"
| "exn_str (RecursionError m) = m"
| "exn_str (UnicodeDecodeError m) = m"
| "exn_str (Raised m) = m"

text \<open>
  \<^verbatim>\<open>str.strip()\<close> removes the characters for which \<^verbatim>\<open>str.isspace\<close> holds;
  below code point 256 these are 9 to 13, 28 to 32, 133 and 160.
\<close>

definition py_isspace :: "char \<Rightarrow> bool" where
  "py_isspace c =
     (let n = (of_char c :: nat)
      in (9 \<le> n \<and> n \<le> 13) \<or> (28 \<le> n \<and> n \<le> 32) \<or> n = 133 \<or> n = 160)"

definition py_strip :: "string \<Rightarrow> string" where
  "py_strip s = rev (dropWhile py_isspace (rev (dropWhile py_isspace s)))"

text \<open>\<^verbatim>\<open>s.find(c)\<close>: the index of the first occurrence, or -1.\<close>

definition py_find :: "char \<Rightarrow> string \<Rightarrow> int" where
  "py_find c s = (if c \<in> set s then int (length (takeWhile (\<lambda>x. x \<noteq> c) s)) else - 1)"

text \<open>
  \<^verbatim>\<open>s[i:j]\<close>: a negative bound counts from the end, and both bounds are clipped
  to the string.
\<close>

definition py_bound :: "string \<Rightarrow> int \<Rightarrow> nat" where
  "py_bound s k =
     (let n = int (length s)
      in if k < 0 then nat (max (k + n) 0) else nat (min k n))"

definition py_slice :: "string \<Rightarrow> int \<Rightarrow> int \<Rightarrow> string" where
  "py_slice s i j = take (py_bound s j - py_bound s i) (drop (py_bound s i) s)"

text \<open>\<^verbatim>\<open>str(n)\<close> of an integer, as the f-string prints the exit code.\<close>

function str_nat :: "nat \<Rightarrow> string" where
  "str_nat n =
     (if n < 10 then [char_of (48 + n)]
      else str_nat (n div 10) @ [char_of (48 + n mod 10)])"
  by pat_completeness auto
termination
  by (relation "measure (\<lambda>n. n)") auto

definition str_int :: "int \<Rightarrow> string" where
  "str_int i = (if i < 0 then ''-'' @ str_nat (nat (- i)) else str_nat (nat i))"

section \<open>The JSON decoder used by the argument parser\<close>

text \<open>
  \<^verbatim>\<open>json.loads\<close> belongs to Python's standard library. It is modelled here with
  its default settings (strict mode, the constants \<^verbatim>\<open>NaN\<close>, \<^verbatim>\<open>Infinity\<close>
  and \<^verbatim>\<open>-Infinity\<close> accepted). An integer literal is its value; a literal with a
  fraction or an exponent is kept as its lexeme, since floating-point values are not
  modelled. A \<^verbatim>\<open>dict\<close> is the list of its items in insertion order. The decoder
  reads its text from left to right and ends at the first error it meets.
\<close>

datatype json =
    JNull
  | JBool bool
  | JInt int
  | JFloat string
  | JStr pystr
  | JArr "json list"
  | JObj "(pystr \<times> json) list"

definition hex_digit :: "char \<Rightarrow> nat option" where
  "hex_digit c =
     (let n = (of_char c :: nat) in
      if 48 \<le> n \<and> n \<le> 57 then Some (n - 48)
      else if 97 \<le> n \<and> n \<le> 102 then Some (n - 87)
      else if 65 \<le> n \<and> n \<le> 70 then Some (n - 55)
      else None)"

fun hex4 :: "string \<Rightarrow> nat option" where
  "hex4 [a, b, c, d] =
     (case (hex_digit a, hex_digit b, hex_digit c, hex_digit d) of
        (Some x3, Some x2, Some x1, Some x0) \<Rightarrow> Some (((x3 * 16 + x2) * 16 + x1) * 16 + x0)
      | _ \<Rightarrow> None)"
| "hex4 _ = None"

definition simple_escape :: "char \<Rightarrow> nat option" where
  "simple_escape e =
     (if e = DQ then Some 34
      else if e = BSL then Some 92
      else if e = CHR ''/'' then Some 47
      else if e = CHR ''b'' then Some 8
      else if e = CHR ''f'' then Some 12
      else if e = CHR ''n'' then Some 10
      else if e = CHR ''r'' then Some 13
      else if e = CHR ''t'' then Some 9
      else None)"

definition is_high_surrogate :: "nat \<Rightarrow> bool" where
  "is_high_surrogate u = (55296 \<le> u \<and> u \<le> 56319)"

definition is_low_surrogate :: "nat \<Rightarrow> bool" where
  "is_low_surrogate u = (56320 \<le> u \<and> u \<le> 57343)"

definition join_surrogates :: "nat \<Rightarrow> nat \<Rightarrow> nat" where
  "join_surrogates hi lo = 65536 + ((hi - 55296) * 1024 + (lo - 56320))"

definition emit :: "nat \<Rightarrow> (pystr \<times> string) option \<Rightarrow> (pystr \<times> string) option" where
  "emit u res = (case res of None \<Rightarrow> None | Some (us, r) \<Rightarrow> Some (u # us, r))"

text \<open>
  \<open>scanstring\<close> reads a string literal after its opening quote and returns the decoded
  text with the input that follows the closing quote. A control character inside the
  literal, an unknown escape and a missing closing quote are errors. A high surrogate
  escape directly followed by a low surrogate escape is one code point.
\<close>

fun scanstring :: "string \<Rightarrow> (pystr \<times> string) option" where
  "scanstring [] = None"
| "scanstring (c # cs) =
     (if c = DQ then Some ([], cs)
      else if c = BSL then
        (case cs of
           [] \<Rightarrow> None
         | e # r \<Rightarrow>
             if e = CHR ''u'' then
               (case hex4 (take 4 r) of
                  None \<Rightarrow> None
                | Some u \<Rightarrow>
                    if is_high_surrogate u \<and> take 2 (drop 4 r) = [BSL, CHR ''u''] then
                      (case hex4 (take 4 (drop 6 r)) of
                         None \<Rightarrow> None
                       | Some u2 \<Rightarrow>
                           if is_low_surrogate u2
                           then emit (join_surrogates u u2) (scanstring (drop 10 r))
                           else emit u (scanstring (drop 4 r)))
                    else emit u (scanstring (drop 4 r)))
             else
               (case simple_escape e of
                  None \<Rightarrow> None
                | Some u \<Rightarrow> emit u (scanstring r)))
      else if (of_char c :: nat) < 32 then None
      else emit (of_char c) (scanstring cs))"

definition is_numchar :: "char \<Rightarrow> bool" where
  "is_numchar c = (is_digit c \<or> c \<in> set ''+-.eE'')"

fun int_of_digits :: "int \<Rightarrow> string \<Rightarrow> int" where
  "int_of_digits acc [] = acc"
| "int_of_digits acc (d # ds) = int_of_digits (acc * 10 + (int (of_char d) - 48)) ds"

text \<open>
  What the decoder is given by the interpreter it runs in. \<open>json_depth_limit\<close> is the
  number of arrays and objects, one inside the other, that the decoder can open before
  the recursion limit of the interpreter is reached; it follows from
  \<^verbatim>\<open>sys.getrecursionlimit()\<close> and from the depth of the call stack at the call.
  \<open>int_max_str_digits\<close> is \<^verbatim>\<open>sys.get_int_max_str_digits()\<close>, the largest number
  of digits of an integer literal that is converted, where 0 stands for no limit (as it
  does in Python, and as holds before Python 3.11).
\<close>

record interpreter =
  json_depth_limit :: nat
  int_max_str_digits :: nat

text \<open>
  The three ways in which \<^verbatim>\<open>json.loads\<close> ends without a value:
  \<^verbatim>\<open>JSONDecodeError\<close> for a text that is not JSON, \<^verbatim>\<open>RecursionError\<close> when a
  container (named in the message) would be opened beyond the depth limit, and
  \<^verbatim>\<open>ValueError\<close> for an integer literal with more digits than the limit (the number
  of its digits is kept for the message).
\<close>

datatype decode_error =
    JSONDecodeError
  | RecursionLimit string
  | IntDigits nat

text \<open>
  A number is \<^verbatim>\<open>-?(0|[1-9]\d*)(\.\d+)?([eE][-+]?\d+)?\<close>. The lexer hands over the
  longest run of number characters. \<open>scan_number\<close> matches the longest prefix of the run
  that is a number, as the regular expression does, and converts it: an integer when it
  has neither fraction nor exponent, which is where the digit limit applies. What is left
  of the run after the match is an error, because no value may follow a number without a
  delimiter; the conversion comes first.
\<close>

definition scan_number :: "interpreter \<Rightarrow> string \<Rightarrow> decode_error + json" where
  "scan_number I lexeme =
     (let neg = (take 1 lexeme = ''-'');
          s1 = (if neg then drop 1 lexeme else lexeme);
          ds = (if take 1 s1 = ''0'' then ''0'' else takeWhile is_digit s1);
          s2 = drop (length ds) s1;
          has_frac = (take 1 s2 = ''.'' \<and> takeWhile is_digit (drop 1 s2) \<noteq> []);
          s3 = (if has_frac then dropWhile is_digit (drop 1 s2) else s2);
          s4 = (if take 1 (drop 1 s3) = ''+'' \<or> take 1 (drop 1 s3) = ''-''
                then drop 2 s3 else drop 1 s3);
          has_exp = ((take 1 s3 = ''e'' \<or> take 1 s3 = ''E'') \<and> takeWhile is_digit s4 \<noteq> []);
          s5 = (if has_exp then dropWhile is_digit s4 else s3)
      in if ds = [] then Inl JSONDecodeError
         else if has_frac \<or> has_exp then
           (if s5 \<noteq> [] then Inl JSONDecodeError
            else Inr (JFloat lexeme))
         else if int_max_str_digits I \<noteq> 0 \<and> int_max_str_digits I < length ds
           then Inl (IntDigits (length ds))
         else if s5 \<noteq> [] then Inl JSONDecodeError
         else Inr (JInt (if neg then - int_of_digits 0 ds else int_of_digits 0 ds)))"

text \<open>
  The lexer. Whitespace between tokens is space, tab, line feed and carriage return.
  \<open>TBad\<close> stands where the text cannot be read on, and ends the tokens: the decoder
  works from left to right, so what comes before is decoded first.
\<close>

datatype token =
    TLBrace | TRBrace | TLBrack | TRBrack | TColon | TComma
  | TString pystr
  | TScalar json
  | TNumber string
  | TBad

definition is_ws :: "char \<Rightarrow> bool" where
  "is_ws c = (c = CHR '' '' \<or> c = TAB \<or> c = LF \<or> c = CHR 0x0D)"

function lexer :: "string \<Rightarrow> token list" where
  "lexer [] = []"
| "lexer (c # cs) =
     (if is_ws c then lexer cs
      else if c = CHR ''{'' then TLBrace # lexer cs
      else if c = CHR ''}'' then TRBrace # lexer cs
      else if c = CHR ''['' then TLBrack # lexer cs
      else if c = CHR '']'' then TRBrack # lexer cs
      else if c = CHR '':'' then TColon # lexer cs
      else if c = CHR '','' then TComma # lexer cs
      else if c = DQ then
        (case scanstring cs of
           None \<Rightarrow> [TBad]
         | Some (us, r) \<Rightarrow> TString us # lexer r)
      else if take 4 (c # cs) = ''null'' then TScalar JNull # lexer (drop 3 cs)
      else if take 4 (c # cs) = ''true'' then TScalar (JBool True) # lexer (drop 3 cs)
      else if take 5 (c # cs) = ''false'' then TScalar (JBool False) # lexer (drop 4 cs)
      else if take 3 (c # cs) = ''NaN'' then TScalar (JFloat ''NaN'') # lexer (drop 2 cs)
      else if take 8 (c # cs) = ''Infinity''
        then TScalar (JFloat ''Infinity'') # lexer (drop 7 cs)
      else if take 9 (c # cs) = ''-Infinity''
        then TScalar (JFloat ''-Infinity'') # lexer (drop 8 cs)
      else if c = CHR ''-'' \<or> is_digit c then
        TNumber (c # takeWhile is_numchar cs) # lexer (dropWhile is_numchar cs)
      else [TBad])"
  by pat_completeness auto
termination
proof (relation "measure length")
  fix c cs x2 x y
  assume scanned: "scanstring cs = Some x2" "(x, y) = x2"
  have emitted: "emit u res = Some (us, r) \<longleftrightarrow> (\<exists>us'. res = Some (us', r) \<and> us = u # us')"
    for u res us r
    by (auto simp: emit_def split: option.splits)
  have "scanstring s = Some (us, r) \<Longrightarrow> length r \<le> length s" for s us r
  proof (induction "length s" arbitrary: s us r rule: less_induct)
    case less
    have IH: "scanstring t = Some (us', r') \<Longrightarrow> length t < length s \<Longrightarrow> length r' \<le> length t"
      for t us' r'
      using less.hyps by blast
    show ?case
    proof (cases s)
      case Nil
      with less.prems show ?thesis by simp
    next
      case (Cons d ds)
      with less.prems show ?thesis
        by (auto simp: emitted split: if_splits list.splits option.splits dest!: IH)
    qed
  qed
  from this [of cs x y] scanned have "length y \<le> length cs"
    by simp
  then show "(y, c # cs) \<in> measure length" by simp
qed (auto simp: less_Suc_eq_le length_dropWhile_le)

text \<open>
  The parser runs over the tokens with a stack of the containers that are still open.
  \<open>FKey k\<close> on top of an \<open>FObj\<close> is a member whose key has been read and whose value
  has not.
\<close>

datatype frame = FArr "json list" | FObj "(pystr \<times> json) list" | FKey pystr

datatype mode =
    MValue      \<comment> \<open>a value must follow\<close>
  | MArrFirst   \<comment> \<open>after \<open>[\<close>: a value or \<open>]\<close>\<close>
  | MObjFirst   \<comment> \<open>after \<open>{\<close>: a key or \<open>}\<close>\<close>
  | MKey        \<comment> \<open>after a comma in an object: a key\<close>
  | MColon      \<comment> \<open>after a key: a colon\<close>
  | MAfter      \<comment> \<open>after a value in a container: a comma or the closing bracket\<close>
  | MDone json  \<comment> \<open>the top-level value is complete\<close>

text \<open>The number of containers that are open.\<close>

fun containers :: "frame list \<Rightarrow> nat" where
  "containers [] = 0"
| "containers (FKey k # st) = containers st"
| "containers (f # st) = Suc (containers st)"

text \<open>
  A finished value goes to the innermost open container. A key that occurs again
  replaces the value of its first occurrence, as building a \<^verbatim>\<open>dict\<close> does.
\<close>

fun deliver :: "json \<Rightarrow> frame list \<Rightarrow> decode_error + mode \<times> frame list" where
  "deliver v [] = Inr (MDone v, [])"
| "deliver v (FArr es # st) = Inr (MAfter, FArr (es @ [v]) # st)"
| "deliver v (FKey k # FObj ms # st) = Inr (MAfter, FObj (AList.update k v ms) # st)"
| "deliver v _ = Inl JSONDecodeError"

text \<open>
  The start of a value. A number is converted here, where a value is expected, and a
  container is opened only below the depth limit.
\<close>

definition start_value ::
  "interpreter \<Rightarrow> token \<Rightarrow> frame list \<Rightarrow> decode_error + mode \<times> frame list" where
  "start_value I t st =
     (case t of
        TScalar v \<Rightarrow> deliver v st
      | TString us \<Rightarrow> deliver (JStr us) st
      | TNumber lexeme \<Rightarrow>
          (case scan_number I lexeme of Inl e \<Rightarrow> Inl e | Inr v \<Rightarrow> deliver v st)
      | TLBrack \<Rightarrow>
          if json_depth_limit I \<le> containers st then Inl (RecursionLimit ''array'')
          else Inr (MArrFirst, FArr [] # st)
      | TLBrace \<Rightarrow>
          if json_depth_limit I \<le> containers st then Inl (RecursionLimit ''object'')
          else Inr (MObjFirst, FObj [] # st)
      | _ \<Rightarrow> Inl JSONDecodeError)"

definition close_array :: "frame list \<Rightarrow> decode_error + mode \<times> frame list" where
  "close_array st =
     (case st of FArr es # st' \<Rightarrow> deliver (JArr es) st' | _ \<Rightarrow> Inl JSONDecodeError)"

definition close_object :: "frame list \<Rightarrow> decode_error + mode \<times> frame list" where
  "close_object st =
     (case st of FObj ms # st' \<Rightarrow> deliver (JObj ms) st' | _ \<Rightarrow> Inl JSONDecodeError)"

definition parse_step ::
  "interpreter \<Rightarrow> mode \<times> frame list \<Rightarrow> token \<Rightarrow> decode_error + mode \<times> frame list" where
  "parse_step I ms t =
     (case ms of (m, st) \<Rightarrow>
        (case m of
           MValue \<Rightarrow> start_value I t st
         | MArrFirst \<Rightarrow> (if t = TRBrack then close_array st else start_value I t st)
         | MObjFirst \<Rightarrow>
             (case t of
                TString k \<Rightarrow> Inr (MColon, FKey k # st)
              | TRBrace \<Rightarrow> close_object st
              | _ \<Rightarrow> Inl JSONDecodeError)
         | MKey \<Rightarrow> (case t of TString k \<Rightarrow> Inr (MColon, FKey k # st) | _ \<Rightarrow> Inl JSONDecodeError)
         | MColon \<Rightarrow> (if t = TColon then Inr (MValue, st) else Inl JSONDecodeError)
         | MAfter \<Rightarrow>
             (case (t, st) of
                (TComma, FArr es # st') \<Rightarrow> Inr (MValue, st)
              | (TComma, FObj ms # st') \<Rightarrow> Inr (MKey, st)
              | (TRBrack, _) \<Rightarrow> close_array st
              | (TRBrace, _) \<Rightarrow> close_object st
              | _ \<Rightarrow> Inl JSONDecodeError)
         | MDone v \<Rightarrow> Inl JSONDecodeError))"

fun parse_tokens ::
  "interpreter \<Rightarrow> mode \<times> frame list \<Rightarrow> token list \<Rightarrow> decode_error + json" where
  "parse_tokens I ms [] = (case ms of (MDone v, []) \<Rightarrow> Inr v | _ \<Rightarrow> Inl JSONDecodeError)"
| "parse_tokens I ms (t # ts) =
     (case parse_step I ms t of Inl e \<Rightarrow> Inl e | Inr ms' \<Rightarrow> parse_tokens I ms' ts)"

definition loads :: "interpreter \<Rightarrow> string \<Rightarrow> decode_error + json" where
  "loads I s = parse_tokens I (MValue, []) (lexer s)"

section \<open>The structured-argument parser\<close>

text \<open>
  \<^verbatim>\<open>_format_json_str\<close>: the loop over the characters of \<^verbatim>\<open>jstr\<close>, with the
  two variables \<^verbatim>\<open>inside_quotes\<close> and \<^verbatim>\<open>last_char\<close> it carries. The
  quote test reads \<^verbatim>\<open>last_char\<close> before it is overwritten with the current
  character, and \<^verbatim>\<open>last_char\<close> is the character as read, not its replacement.
\<close>

fun format_json_loop :: "bool \<Rightarrow> char \<Rightarrow> string \<Rightarrow> string" where
  "format_json_loop inside_quotes last_char [] = []"
| "format_json_loop inside_quotes last_char (c # cs) =
     (let inside_quotes' = (if last_char \<noteq> BSL \<and> c = DQ then \<not> inside_quotes else inside_quotes)
      in if \<not> inside_quotes' \<and> c = LF then format_json_loop inside_quotes' c cs
         else if inside_quotes' \<and> c = LF then [BSL, CHR ''n''] @ format_json_loop inside_quotes' c cs
         else if inside_quotes' \<and> c = TAB then [BSL, CHR ''t''] @ format_json_loop inside_quotes' c cs
         else c # format_json_loop inside_quotes' c cs)"

definition format_json_str :: "string \<Rightarrow> string" where
  "format_json_str jstr = format_json_loop False (CHR '' '') jstr"

text \<open>
  \<^verbatim>\<open>_extract_args\<close>: the decoded value, whatever its JSON type, or the empty
  \<^verbatim>\<open>dict\<close> when decoding raises \<^verbatim>\<open>JSONDecodeError\<close>. This is the only
  exception that is caught: the other two leave the method.
\<close>

definition extract_args :: "interpreter \<Rightarrow> string \<Rightarrow> pyexn + json" where
  "extract_args I input_string =
     (case loads I (format_json_str input_string) of
        Inr args \<Rightarrow> Inr args
      | Inl JSONDecodeError \<Rightarrow> Inr (JObj [])
      | Inl (RecursionLimit container) \<Rightarrow>
          Inl (RecursionError (''maximum recursion depth exceeded while decoding a JSON ''
                 @ container @ '' from a unicode string''))
      | Inl (IntDigits n) \<Rightarrow>
          Inl (ValueError (''Exceeds the limit ('' @ str_nat (int_max_str_digits I)
                 @ '' digits) for integer string conversion: value has '' @ str_nat n
                 @ '' digits; use sys.set_int_max_str_digits() to increase the limit'')))"

section \<open>The agent and the collaborators it calls\<close>

text \<open>
  \<^verbatim>\<open>use_docker\<close> is a Boolean at construction; the agent later stores in the same
  attribute what the execution service returns as \<^verbatim>\<open>image\<close>, an image name or
  \<^verbatim>\<open>None\<close>.
\<close>

datatype docker = Flag bool | Image string | NoImage

record exec_call =
  ec_code :: string
  ec_work_dir :: "string option"
  ec_filename :: "string option"
  ec_use_docker :: docker
  ec_lang :: "string option"

text \<open>
  The log that \<^verbatim>\<open>execute_code\<close> returns is a \<^verbatim>\<open>bytes\<close> object, the output
  of the program that ran. \<open>Utf8 t\<close> is the UTF-8 encoding of the text \<open>t\<close>;
  \<open>NotUtf8 m\<close> stands for bytes that are not UTF-8, with the message of the
  \<^verbatim>\<open>UnicodeDecodeError\<close> that decoding them raises.
\<close>

datatype pybytes = Utf8 string | NotUtf8 string

text \<open>\<^verbatim>\<open>logs.decode("utf-8")\<close>.\<close>

definition decode :: "pybytes \<Rightarrow> pyexn + string" where
  "decode b = (case b of Utf8 t \<Rightarrow> Inr t | NotUtf8 m \<Rightarrow> Inl (UnicodeDecodeError m))"

type_synonym exec_result = "int \<times> pybytes \<times> docker"

text \<open>
  The functions imported from \<^verbatim>\<open>flaml.autogen.code_utils\<close> are not part of the
  file and are parameters of the model. \<open>'w\<close> is the state of the world outside the
  agent, which the execution service and the registered callables read and change. In a
  call, \<open>ec_filename\<close> and \<open>ec_lang\<close> are \<open>None\<close> where the source leaves the
  keyword out.
\<close>

record 'w code_utils =
  UNKNOWN :: string
  infer_lang :: "string \<Rightarrow> string"
  extract_code :: "string \<Rightarrow> (string \<times> string) list"
  execute_code :: "exec_call \<Rightarrow> 'w \<Rightarrow> exec_result \<times> 'w"

text \<open>
  A registered callable takes the keyword arguments and returns either the exception it
  raises or \<^verbatim>\<open>str\<close> of what it returns. The exceptions are those derived from
  \<^verbatim>\<open>Exception\<close>, which \<^verbatim>\<open>except Exception\<close> catches. A Python object that is
  called may also not be callable at all; \<open>NotCallable\<close> carries the name of its type.
\<close>

type_synonym kwargs = "(pystr \<times> json) list"

datatype 'w pyfun =
    Callable "kwargs \<Rightarrow> 'w \<Rightarrow> (pyexn + string) \<times> 'w"
  | NotCallable string

record 'w pyobject =
  attr :: "string \<Rightarrow> 'w pyfun option"
  self_call :: "'w pyfun"

text \<open>
  An entry of \<^verbatim>\<open>function_map\<close>: each field is \<open>None\<close> when the key is missing
  from the inner \<^verbatim>\<open>dict\<close>.
\<close>

record 'w func_entry =
  fe_class :: "'w pyobject option"
  fe_function :: "'w pyfun option"
  fe_func_name :: "string option"
  fe_args :: "kwargs option"

record func_call =
  fc_name :: "string option"
  fc_arguments :: "string option"

record message =
  content :: "string option"
  role :: "string option"
  name :: "string option"
  function_call :: "func_call option"

datatype incoming = Str string | Dict message

record result_dict =
  rd_name :: string
  rd_role :: string
  rd_content :: string

datatype payload = PText string | PDict result_dict

text \<open>
  The agent. The first seven fields are the attributes of \<^verbatim>\<open>self\<close>. \<open>interp\<close>
  is the interpreter that runs the agent, with the limits it gives to the JSON decoder. The
  others record what the agent does to the outside: \<open>world\<close> is the state of the
  collaborators,
  \<open>outbox\<close> the calls of \<^verbatim>\<open>_send\<close> (what is sent and the name of the recipient),
  \<open>prompts\<close> the number of calls of \<^verbatim>\<open>input\<close>, and \<open>executions\<close> the calls of
  \<^verbatim>\<open>execute_code\<close> with their results, oldest first. What a recipient does with
  what it is sent belongs to the transport and the peer and is not part of the model. The
  counter is a \<^verbatim>\<open>defaultdict(int)\<close>: a sender never seen reads as 0.
\<close>

record 'w agent =
  work_dir :: "string option"
  human_input_mode :: string
  is_termination_msg :: "message \<Rightarrow> bool"
  max_consecutive_auto_reply :: int
  consecutive_auto_reply_counter :: "string \<Rightarrow> int"
  use_docker :: docker
  function_map :: "(string \<times> 'w func_entry) list"
  interp :: interpreter
  world :: 'w
  outbox :: "(payload \<times> string) list"
  prompts :: nat
  executions :: "(exec_call \<times> exec_result) list"

definition MAX_CONSECUTIVE_AUTO_REPLY :: int where
  "MAX_CONSECUTIVE_AUTO_REPLY = 100"

definition default_is_termination_msg :: "message \<Rightarrow> bool" where
  "default_is_termination_msg x = (content x = Some ''TERMINATE'')"

definition entry_ok :: "'w func_entry \<Rightarrow> bool" where
  "entry_ok e =
     ((fe_class e \<noteq> None \<or> fe_function e \<noteq> None)
      \<and> (fe_class e \<noteq> None) \<noteq> (fe_function e \<noteq> None))"

text \<open>
  \<^verbatim>\<open>__init__\<close>, with \<open>None\<close> for an argument left at its default
  \<^verbatim>\<open>None\<close>. The name and the system message go to the base class. The assertion
  asks every entry of the function map for exactly one of \<^verbatim>\<open>"class"\<close> and
  \<^verbatim>\<open>"function"\<close>. The last two arguments are the interpreter and the world in
  which the agent is built.
\<close>

definition init ::
  "string option \<Rightarrow> string \<Rightarrow> (string \<times> 'w func_entry) list \<Rightarrow> int option
     \<Rightarrow> (message \<Rightarrow> bool) option \<Rightarrow> bool \<Rightarrow> interpreter \<Rightarrow> 'w \<Rightarrow> pyexn + 'w agent" where
  "init wd mode fmap max_reply is_term docker_flag I w =
     (if list_all (\<lambda>(f, e). entry_ok e) fmap then
        Inr \<lparr> work_dir = wd,
              human_input_mode = mode,
              is_termination_msg =
                (case is_term of Some p \<Rightarrow> p | None \<Rightarrow> default_is_termination_msg),
              max_consecutive_auto_reply =
                (case max_reply of Some m \<Rightarrow> m | None \<Rightarrow> MAX_CONSECUTIVE_AUTO_REPLY),
              consecutive_auto_reply_counter = (\<lambda>s. 0),
              use_docker = Flag docker_flag,
              function_map = fmap,
              interp = I,
              world = w,
              outbox = [],
              prompts = 0,
              executions = [] \<rparr>
      else Inl (AssertionError
        ''only one of 'class' and 'function' can exist in a function config.''))"

definition send :: "payload \<Rightarrow> string \<Rightarrow> 'w agent \<Rightarrow> 'w agent" where
  "send m recipient self = self\<lparr>outbox := outbox self @ [(m, recipient)]\<rparr>"

section \<open>Executing code blocks\<close>

definition shell_langs :: "string list" where
  "shell_langs = [''bash'', ''shell'', ''sh'']"

text \<open>
  The file name of a Python block: \<^verbatim>\<open>code[11 : code.find("\n")].strip()\<close> when
  the code starts with the directive, \<^verbatim>\<open>None\<close> otherwise.
\<close>

definition directive_filename :: "string \<Rightarrow> string option" where
  "directive_filename code =
     (if take 12 code = ''# filename: ''
      then Some (py_strip (py_slice code 11 (py_find LF code)))
      else None)"

text \<open>
  The language of a block, inferred when the tag is empty, and the arguments of the call
  of \<^verbatim>\<open>execute_code\<close> that the branch for this language makes; \<open>None\<close> in the
  last branch, which makes no call.
\<close>

definition block_lang :: "'w code_utils \<Rightarrow> string \<times> string \<Rightarrow> string" where
  "block_lang cu code_block =
     (case code_block of (lang, code) \<Rightarrow> if lang = [] then infer_lang cu code else lang)"

definition block_call :: "'w code_utils \<Rightarrow> 'w agent \<Rightarrow> string \<times> string \<Rightarrow> exec_call option" where
  "block_call cu self code_block =
     (let lang = block_lang cu code_block; code = snd code_block
      in if lang \<in> set shell_langs then
           Some \<lparr> ec_code = code, ec_work_dir = work_dir self, ec_filename = None,
                  ec_use_docker = use_docker self, ec_lang = Some lang \<rparr>
         else if lang = ''python'' then
           Some \<lparr> ec_code = code, ec_work_dir = work_dir self,
                  ec_filename = directive_filename code,
                  ec_use_docker = use_docker self, ec_lang = None \<rparr>
         else None)"

text \<open>
  \<^verbatim>\<open>_execute_code\<close>: the loop over \<^verbatim>\<open>code_blocks\<close> with its variables
  \<^verbatim>\<open>logs_all\<close> and \<^verbatim>\<open>exitcode\<close> (\<open>None\<close> while nothing is bound to it).
  In the last branch the source unpacks a tuple of two into three names, which raises
  \<^verbatim>\<open>ValueError\<close> before anything is assigned. In the other two the log is decoded
  right after the call: when that raises, the call has been made, and neither
  \<^verbatim>\<open>self._use_docker\<close> nor \<^verbatim>\<open>logs_all\<close> has been assigned.
\<close>

fun execute_code_loop ::
  "'w code_utils \<Rightarrow> 'w agent \<Rightarrow> string \<Rightarrow> int option \<Rightarrow> (string \<times> string) list
     \<Rightarrow> (pyexn + int \<times> string) \<times> 'w agent" where
  "execute_code_loop cu self logs_all exitcode [] =
     (case exitcode of
        None \<Rightarrow>
          (Inl (UnboundLocalError
             ''local variable 'exitcode' referenced before assignment''), self)
      | Some e \<Rightarrow> (Inr (e, logs_all), self))"
| "execute_code_loop cu self logs_all exitcode (code_block # rest) =
     (case block_call cu self code_block of
        None \<Rightarrow> (Inl (ValueError ''not enough values to unpack (expected 3, got 2)''), self)
      | Some call \<Rightarrow>
          (case execute_code cu call (world self) of
             ((exitcode', logs, image'), w') \<Rightarrow>
               let called = self\<lparr> world := w',
                                  executions := executions self
                                    @ [(call, (exitcode', logs, image'))] \<rparr>
               in case decode logs of
                    Inl e \<Rightarrow> (Inl e, called)
                  | Inr logs' \<Rightarrow>
                      let self' = called\<lparr> use_docker := image' \<rparr>;
                          logs_all' = logs_all @ [LF] @ logs'
                      in if exitcode' \<noteq> 0 then (Inr (exitcode', logs_all'), self')
                         else execute_code_loop cu self' logs_all' (Some exitcode') rest))"

definition self_execute_code ::
  "'w code_utils \<Rightarrow> 'w agent \<Rightarrow> (string \<times> string) list
     \<Rightarrow> (pyexn + int \<times> string) \<times> 'w agent" where
  "self_execute_code cu self code_blocks = execute_code_loop cu self [] None code_blocks"

section \<open>Executing a function call\<close>

definition SQ :: char where "SQ = CHR 0x27"

definition type_name :: "json \<Rightarrow> string" where
  "type_name v =
     (case v of
        JNull \<Rightarrow> ''NoneType'' | JBool b \<Rightarrow> ''bool'' | JInt i \<Rightarrow> ''int''
      | JFloat f \<Rightarrow> ''float'' | JStr t \<Rightarrow> ''str'' | JArr xs \<Rightarrow> ''list''
      | JObj ms \<Rightarrow> ''dict'')"

text \<open>
  \<^verbatim>\<open>arguments.update(...)\<close>: every item of the bound arguments is stored into the
  parsed ones. Only a \<^verbatim>\<open>dict\<close> has the method.
\<close>

definition dict_update :: "json \<Rightarrow> kwargs \<Rightarrow> pyexn + kwargs" where
  "dict_update arguments extra =
     (case arguments of
        JObj ms \<Rightarrow> Inr (fold (\<lambda>(k, v). AList.update k v) extra ms)
      | _ \<Rightarrow> Inl (AttributeError
          ([SQ] @ type_name arguments @ [SQ] @ '' object has no attribute ''
             @ [SQ] @ ''update'' @ [SQ])))"

text \<open>
  The callable of an entry: \<^verbatim>\<open>getattr(cls, func_name, cls)\<close> when the entry has
  a \<^verbatim>\<open>"class"\<close>, where \<^verbatim>\<open>getattr\<close> raises \<^verbatim>\<open>TypeError\<close> for the name
  \<^verbatim>\<open>None\<close>; \<^verbatim>\<open>func_dict["function"]\<close> otherwise.
\<close>

definition resolve :: "'w func_entry \<Rightarrow> pyexn + 'w pyfun" where
  "resolve func_dict =
     (case fe_class func_dict of
        Some cls \<Rightarrow>
          (case fe_func_name func_dict of
             None \<Rightarrow> Inl (TypeError ''getattr(): attribute name must be string'')
           | Some n \<Rightarrow> (case attr cls n of Some f \<Rightarrow> Inr f | None \<Rightarrow> Inr (self_call cls)))
      | None \<Rightarrow>
          (case fe_function func_dict of
             Some f \<Rightarrow> Inr f
           | None \<Rightarrow> Inl (KeyError ''function'')))"

definition invoke :: "'w pyfun \<Rightarrow> kwargs \<Rightarrow> 'w \<Rightarrow> (pyexn + string) \<times> 'w" where
  "invoke func arguments w =
     (case func of
        Callable f \<Rightarrow> f arguments w
      | NotCallable t \<Rightarrow> (Inl (TypeError ([SQ] @ t @ [SQ] @ '' object is not callable'')), w))"

text \<open>
  \<^verbatim>\<open>_execute_function\<close>. Parsing and merging the arguments come before the
  \<^verbatim>\<open>try\<close>; what they raise leaves the method. What resolving and calling raise
  is caught and becomes the content. The arguments are parsed in the interpreter of the
  agent.
\<close>

definition execute_function ::
  "'w agent \<Rightarrow> func_call \<Rightarrow> (pyexn + bool \<times> result_dict) \<times> 'w agent" where
  "execute_function self func_call =
     (let func_name = (case fc_name func_call of Some n \<Rightarrow> n | None \<Rightarrow> [])
      in case map_of (function_map self) func_name of
           None \<Rightarrow>
             (Inr (False, \<lparr> rd_name = func_name, rd_role = ''function'',
                            rd_content = ''Error: Function '' @ func_name @ '' not found.'' \<rparr>),
              self)
         | Some func_dict \<Rightarrow>
             (case extract_args (interp self)
                     (case fc_arguments func_call of Some a \<Rightarrow> a | None \<Rightarrow> []) of
                Inl e \<Rightarrow> (Inl e, self)
              | Inr parsed \<Rightarrow>
                  (case dict_update parsed
                          (case fe_args func_dict of Some a \<Rightarrow> a | None \<Rightarrow> []) of
                     Inl e \<Rightarrow> (Inl e, self)
                   | Inr arguments \<Rightarrow>
                       (case resolve func_dict of
                          Inl e \<Rightarrow>
                            (Inr (False, \<lparr> rd_name = func_name, rd_role = ''function'',
                                           rd_content = ''Error: '' @ exn_str e \<rparr>), self)
                        | Inr func \<Rightarrow>
                            (case invoke func arguments (world self) of
                               (Inl e, w') \<Rightarrow>
                                 (Inr (False, \<lparr> rd_name = func_name, rd_role = ''function'',
                                                rd_content = ''Error: '' @ exn_str e \<rparr>),
                                  self\<lparr>world := w'\<rparr>)
                             | (Inr content_str, w') \<Rightarrow>
                                 (Inr (True, \<lparr> rd_name = func_name, rd_role = ''function'',
                                               rd_content = content_str \<rparr>),
                                  self\<lparr>world := w'\<rparr>))))))"

section \<open>Replying\<close>

text \<open>
  \<^verbatim>\<open>auto_reply\<close>. It returns the exception that leaves it, if any, and the agent
  as it is at that point. \<^verbatim>\<open>message["content"]\<close> raises \<^verbatim>\<open>KeyError\<close> when
  the message has no content.
\<close>

definition auto_reply ::
  "'w code_utils \<Rightarrow> 'w agent \<Rightarrow> message \<Rightarrow> string \<Rightarrow> string \<Rightarrow> pyexn option \<times> 'w agent" where
  "auto_reply cu self msg sender default_reply =
     (case function_call msg of
        Some fc \<Rightarrow>
          (case execute_function self fc of
             (Inl e, self') \<Rightarrow> (Some e, self')
           | (Inr (is_exec_success, func_return), self') \<Rightarrow>
               (None, send (PDict func_return) sender self'))
      | None \<Rightarrow>
          (case content msg of
             None \<Rightarrow> (Some (KeyError ''content''), self)
           | Some text \<Rightarrow>
               (let code_blocks = extract_code cu text
                in if length code_blocks = 1 \<and> fst (code_blocks ! 0) = UNKNOWN cu
                   then (None, send (PText default_reply) sender self)
                   else
                     (case self_execute_code cu self code_blocks of
                        (Inl e, self') \<Rightarrow> (Some e, self')
                      | (Inr (exitcode, logs), self') \<Rightarrow>
                          (None,
                           send (PText (''exitcode: '' @ str_int exitcode @ '' (''
                                   @ (if exitcode = 0 then ''execution succeeded''
                                      else ''execution failed'')
                                   @ '')'' @ [LF] @ ''Code output: '' @ logs))
                             sender self')))))"

text \<open>
  \<^verbatim>\<open>receive\<close>. \<open>human\<close> is the line that \<^verbatim>\<open>input\<close> returns if it is called.
  The receipt handling of the base class is bookkeeping outside this file and leaves
  the fields of the model alone.
\<close>

definition normalize :: "incoming \<Rightarrow> message" where
  "normalize m =
     (case m of
        Str s \<Rightarrow> \<lparr> content = Some s, role = Some ''user'', name = None, function_call = None \<rparr>
      | Dict d \<Rightarrow> d)"

definition limit_or_termination :: "'w agent \<Rightarrow> message \<Rightarrow> string \<Rightarrow> bool" where
  "limit_or_termination self msg sender =
     (consecutive_auto_reply_counter self sender \<ge> max_consecutive_auto_reply self
      \<or> is_termination_msg self msg)"

definition obtain_reply :: "'w agent \<Rightarrow> message \<Rightarrow> string \<Rightarrow> string \<Rightarrow> string \<times> 'w agent" where
  "obtain_reply self msg sender human =
     (if human_input_mode self = ''ALWAYS'' then
        (human, self\<lparr>prompts := prompts self + 1\<rparr>)
      else if limit_or_termination self msg sender then
        (if human_input_mode self = ''TERMINATE'' then
           ((if human \<noteq> [] then human else ''exit''), self\<lparr>prompts := prompts self + 1\<rparr>)
         else (''exit'', self))
      else ([], self))"

definition set_counter :: "string \<Rightarrow> int \<Rightarrow> 'w agent \<Rightarrow> 'w agent" where
  "set_counter sender v self =
     self\<lparr>consecutive_auto_reply_counter := (consecutive_auto_reply_counter self)(sender := v)\<rparr>"

definition receive ::
  "'w code_utils \<Rightarrow> 'w agent \<Rightarrow> incoming \<Rightarrow> string \<Rightarrow> string \<Rightarrow> pyexn option \<times> 'w agent" where
  "receive cu self m sender human =
     (let msg = normalize m in
      case obtain_reply self msg sender human of
        (reply, self1) \<Rightarrow>
          if reply = ''exit'' \<or> (is_termination_msg self1 msg \<and> reply = []) then
            (None, set_counter sender 0 self1)
          else if reply \<noteq> [] then
            (None, send (PText reply) sender (set_counter sender 0 self1))
          else
            auto_reply cu
              (set_counter sender (consecutive_auto_reply_counter self1 sender + 1) self1)
              msg sender reply)"

section \<open>Reading a run\<close>

text \<open>
  The parts of an entry of \<open>executions\<close>: the exit code, the log and the image that the
  call returned; whether the log is UTF-8, and the text it decodes to (the empty text for
  a log that does not decode).
\<close>

definition exit_of :: "exec_call \<times> exec_result \<Rightarrow> int" where
  "exit_of x = fst (snd x)"

definition log_of :: "exec_call \<times> exec_result \<Rightarrow> pybytes" where
  "log_of x = fst (snd (snd x))"

definition image_of :: "exec_call \<times> exec_result \<Rightarrow> docker" where
  "image_of x = snd (snd (snd x))"

definition decodes :: "exec_call \<times> exec_result \<Rightarrow> bool" where
  "decodes x = (case log_of x of Utf8 t \<Rightarrow> True | NotUtf8 m \<Rightarrow> False)"

definition text_of :: "exec_call \<times> exec_result \<Rightarrow> string" where
  "text_of x = (case log_of x of Utf8 t \<Rightarrow> t | NotUtf8 m \<Rightarrow> [])"

text \<open>
  What the execution service itself returns for a sequence of calls made one after the
  other from the world \<open>w\<close>, and the world it leaves. The entries of \<open>executions\<close>
  are compared with these.
\<close>

fun service_results :: "'w code_utils \<Rightarrow> 'w \<Rightarrow> exec_call list \<Rightarrow> exec_result list" where
  "service_results cu w [] = []"
| "service_results cu w (c # cs) =
     fst (execute_code cu c w) # service_results cu (snd (execute_code cu c w)) cs"

fun service_world :: "'w code_utils \<Rightarrow> 'w \<Rightarrow> exec_call list \<Rightarrow> 'w" where
  "service_world cu w [] = w"
| "service_world cu w (c # cs) = service_world cu (snd (execute_code cu c w)) cs"

text \<open>
  A block is recognised when its language, after inference, is one of the shell languages
  or Python.
\<close>

definition recognized :: "'w code_utils \<Rightarrow> string \<times> string \<Rightarrow> bool" where
  "recognized cu code_block =
     (block_lang cu code_block \<in> set shell_langs \<or> block_lang cu code_block = ''python'')"

text \<open>The calls of the execution service made between two states of the agent.\<close>

definition new_executions :: "'w agent \<Rightarrow> 'w agent \<Rightarrow> (exec_call \<times> exec_result) list" where
  "new_executions self self' = drop (length (executions self)) (executions self')"

text \<open>
  A sequence of calls of \<^verbatim>\<open>receive\<close> on the same agent, each with its message,
  the name of its sender and the line the human would type. The agent lives on when a call
  ends with an exception.
\<close>

fun receive_all ::
  "'w code_utils \<Rightarrow> 'w agent \<Rightarrow> (incoming \<times> string \<times> string) list \<Rightarrow> 'w agent" where
  "receive_all cu self [] = self"
| "receive_all cu self ((m, sender, human) # rest) =
     receive_all cu (snd (receive cu self m sender human)) rest"

text \<open>
  When \<^verbatim>\<open>receive\<close> sets the counter of the sender to zero, in terms of what the
  call is given: in mode \<^verbatim>\<open>ALWAYS\<close>, when the human typed anything or the message
  is a termination message; in the other modes, when the counter has reached the maximum
  or the message is a termination message.
\<close>

definition resets_counter :: "'w agent \<Rightarrow> message \<Rightarrow> string \<Rightarrow> string \<Rightarrow> bool" where
  "resets_counter self msg sender human =
     (if human_input_mode self = ''ALWAYS''
      then human \<noteq> [] \<or> is_termination_msg self msg
      else consecutive_auto_reply_counter self sender \<ge> max_consecutive_auto_reply self
           \<or> is_termination_msg self msg)"

text \<open>
  The three occasions of a reset as the specification lists them: a human reply
  \<^verbatim>\<open>exit\<close>, a non-empty human reply, or a termination message with no human reply.
  \<open>asked\<close> says whether the human was asked at all.
\<close>

definition spec_reset :: "bool \<Rightarrow> string \<Rightarrow> bool \<Rightarrow> bool" where
  "spec_reset asked human terminated =
     ((asked \<and> human = ''exit'') \<or> (asked \<and> human \<noteq> [])
      \<or> (terminated \<and> (\<not> asked \<or> human = [])))"

section \<open>Inputs of the examples\<close>

text \<open>
  The argument string of the round-trip example: an object over four lines, with a line
  feed inside the second string value.
\<close>

definition roundtrip_input :: string where
  \<open>roundtrip_input =
     ''{'' @ [LF] @ ''"tool": "python",'' @ [LF] @ ''"query": "print(1)'' @ [LF]
       @ ''print(2)"'' @ [LF] @ ''}''\<close>

text \<open>
  One line of valid JSON: the first string value is one escaped backslash, and a tab
  follows the comma.
\<close>

definition tab_after_backslash :: string where
  \<open>tab_after_backslash = ''{"a":"'' @ [BSL, BSL] @ ''",'' @ [TAB] @ ''"b":"c"}''\<close>

text \<open>
  The limits of an interpreter with the default settings of Python 3.11: the recursion
  limit 1000, which is more than the decoder ever has left, and 4300 digits.
\<close>

definition default_interpreter :: interpreter where
  "default_interpreter = \<lparr> json_depth_limit = 1000, int_max_str_digits = 4300 \<rparr>"

text \<open>An argument string of 1100 opening brackets, and one of 4301 digits.\<close>

definition deep_brackets :: string where
  "deep_brackets = replicate 1100 (CHR ''['')"

definition long_integer :: string where
  "long_integer = replicate 4301 (CHR ''1'')"

text \<open>
  An execution service that fails on the code \<^verbatim>\<open>exit 1\<close> and succeeds on all
  other code; the output of \<^verbatim>\<open>cat photo.jpg\<close> is not UTF-8, that of all other
  code is; the image depends on the language of the call. Its world counts the calls. The
  other collaborators are the simplest ones: no code block is ever found in a text, and
  untagged code is taken for Python.
\<close>

definition demo_service :: "exec_call \<Rightarrow> nat \<Rightarrow> exec_result \<times> nat" where
  "demo_service c w =
     (((if ec_code c = ''exit 1'' then 1 else 0),
       (if ec_code c = ''cat photo.jpg''
        then NotUtf8 ([SQ] @ ''utf-8'' @ [SQ]
               @ '' codec can't decode byte 0xff in position 0: invalid start byte'')
        else Utf8 (''ran '' @ ec_code c)),
       (if ec_lang c = None then Image ''python:3-slim'' else Image ''python:3-alpine'')),
      w + 1)"

definition demo_utils :: "nat code_utils" where
  "demo_utils =
     \<lparr> UNKNOWN = ''unknown'',
       infer_lang = (\<lambda>code. ''python''),
       extract_code = (\<lambda>text. [(''unknown'', text)]),
       execute_code = demo_service \<rparr>"

text \<open>
  An agent as \<^verbatim>\<open>__init__\<close> builds it from a mode, a maximum and a function map,
  with the default termination predicate and \<^verbatim>\<open>use_docker=True\<close>, in the default
  interpreter.
\<close>

definition demo_agent :: "string \<Rightarrow> int \<Rightarrow> (string \<times> nat func_entry) list \<Rightarrow> nat agent" where
  "demo_agent mode limit fmap =
     \<lparr> work_dir = None,
       human_input_mode = mode,
       is_termination_msg = default_is_termination_msg,
       max_consecutive_auto_reply = limit,
       consecutive_auto_reply_counter = (\<lambda>s. 0),
       use_docker = Flag True,
       function_map = fmap,
       interp = default_interpreter,
       world = 0,
       outbox = [],
       prompts = 0,
       executions = [] \<rparr>"

text \<open>
  A callable after the first example in the docstring of \<^verbatim>\<open>__init__\<close>,
  \<^verbatim>\<open>add_num_func(num_to_be_added)\<close>, which returns its argument plus 10. The one
  here is for integers only: it raises \<^verbatim>\<open>TypeError\<close> when it is called with other
  keywords or with a value whose type is not \<^verbatim>\<open>int\<close>. (The function of the
  docstring adds a floating-point argument in floating point, which the model does not
  have.)
\<close>

definition add_num_func :: "kwargs \<Rightarrow> nat \<Rightarrow> (pyexn + string) \<times> nat" where
  "add_num_func kw w =
     (case kw of
        [(k, JInt n)] \<Rightarrow>
          if k = codes ''num_to_be_added'' then (Inr (str_int (n + 10)), w)
          else (Inl (TypeError ''add_num_func() got an unexpected keyword argument''), w)
      | _ \<Rightarrow> (Inl (TypeError ''add_num_func() takes one int, num_to_be_added''), w))"

definition add_num_map :: "(string \<times> nat func_entry) list" where
  "add_num_map =
     [(''add_num'', \<lparr> fe_class = None, fe_function = Some (Callable add_num_func),
                      fe_func_name = None, fe_args = None \<rparr>)]"

text \<open>
  Three blocks of which the second fails, and one block whose output is not UTF-8.
\<close>

definition failing_second :: "(string \<times> string) list" where
  "failing_second = [(''python'', ''print(1)''), (''sh'', ''exit 1''), (''python'', ''print(2)'')]"

definition binary_output :: "(string \<times> string) list" where
  "binary_output = [(''sh'', ''cat photo.jpg'')]"

definition two_shell_blocks :: "(string \<times> string) list" where
  "two_shell_blocks = [(''sh'', ''echo 1''), (''sh'', ''echo 2'')]"

definition hello :: incoming where
  "hello = Str ''hello''"

text \<open>
  An agent with maximum 1 after one automatic reply to \<^verbatim>\<open>bob\<close>: the counter of
  \<^verbatim>\<open>bob\<close> has reached the maximum.
\<close>

definition after_one_auto_reply :: "string \<Rightarrow> nat agent" where
  "after_one_auto_reply mode = snd (receive demo_utils (demo_agent mode 1 []) hello ''bob'' [])"

text \<open>
  An agent with maximum 2 after \<open>n\<close> messages from \<^verbatim>\<open>bob\<close>, the human typing
  nothing whenever asked.
\<close>

fun after_hellos :: "string \<Rightarrow> nat \<Rightarrow> nat agent" where
  "after_hellos mode 0 = demo_agent mode 2 []"
| "after_hellos mode (Suc n) =
     snd (receive demo_utils (after_hellos mode n) hello ''bob'' [])"

section \<open>The loop over the code blocks\<close>

lemma block_call_fields:
  "block_call cu self b = Some c \<Longrightarrow> ec_code c = snd b \<and> ec_use_docker c = use_docker self"
  by (auto simp: block_call_def Let_def split: if_splits)

lemma block_call_recognized:
  "recognized cu b \<Longrightarrow> block_call cu self b \<noteq> None"
  by (auto simp: recognized_def block_call_def Let_def)

lemma block_call_unrecognized:
  "\<not> recognized cu b \<Longrightarrow> block_call cu self b = None"
  by (auto simp: recognized_def block_call_def Let_def)

lemma block_call_agent:
  "work_dir s = work_dir self \<Longrightarrow> use_docker s = use_docker self \<Longrightarrow>
   block_call cu s b = block_call cu self b"
  by (simp add: block_call_def Let_def)

text \<open>One turn of the loop: the three ways in which a call of the service goes on.\<close>

lemma loop_raise:
  assumes "block_call cu self b = Some c"
    and "execute_code cu c (world self) = ((e, NotUtf8 m, i), w')"
  shows "execute_code_loop cu self logs_all ex (b # bs)
           = (Inl (UnicodeDecodeError m),
              self\<lparr> world := w', executions := executions self @ [(c, (e, NotUtf8 m, i))] \<rparr>)"
  using assms by (simp add: decode_def)

lemma loop_stop:
  assumes "block_call cu self b = Some c"
    and "execute_code cu c (world self) = ((e, Utf8 t, i), w')"
    and "e \<noteq> 0"
  shows "execute_code_loop cu self logs_all ex (b # bs)
           = (Inr (e, logs_all @ [LF] @ t),
              self\<lparr> world := w', executions := executions self @ [(c, (e, Utf8 t, i))],
                    use_docker := i \<rparr>)"
  using assms by (simp add: decode_def)

lemma loop_continue:
  assumes "block_call cu self b = Some c"
    and "execute_code cu c (world self) = ((0, Utf8 t, i), w')"
  shows "execute_code_loop cu self logs_all ex (b # bs)
           = execute_code_loop cu
               (self\<lparr> world := w', executions := executions self @ [(c, (0, Utf8 t, i))],
                     use_docker := i \<rparr>)
               (logs_all @ [LF] @ t) (Some 0) bs"
  using assms by (simp add: decode_def)

lemma loop_cases:
  assumes "block_call cu self b = Some c"
  obtains (raise) e m i w' where "execute_code cu c (world self) = ((e, NotUtf8 m, i), w')"
  | (stop) e t i w' where "execute_code cu c (world self) = ((e, Utf8 t, i), w')" "e \<noteq> 0"
  | (continue) t i w' where "execute_code cu c (world self) = ((0, Utf8 t, i), w')"
proof -
  obtain e l i w' where r: "execute_code cu c (world self) = ((e, l, i), w')"
    by (metis prod_cases3 surj_pair)
  show thesis
  proof (cases l)
    case (NotUtf8 m)
    with r raise show thesis by blast
  next
    case (Utf8 t)
    with r stop continue show thesis by (cases "e = 0") blast+
  qed
qed

lemma loop_prefix:
  "\<exists>new. executions (snd (execute_code_loop cu self logs_all ex blocks)) = executions self @ new"
proof (induction blocks arbitrary: self logs_all ex)
  case Nil
  show ?case by (simp split: option.splits)
next
  case (Cons b bs)
  show ?case
  proof (cases "block_call cu self b")
    case None
    then show ?thesis by simp
  next
    case (Some c)
    then show ?thesis
    proof (cases rule: loop_cases)
      case (raise e m i w')
      show ?thesis unfolding loop_raise [OF Some raise] by simp
    next
      case (stop e t i w')
      show ?thesis unfolding loop_stop [OF Some stop] by simp
    next
      case (continue t i w')
      from Cons.IH [of "self\<lparr> world := w', executions := executions self @ [(c, (0, Utf8 t, i))],
                     use_docker := i \<rparr>" "logs_all @ [LF] @ t" "Some 0"]
      show ?thesis unfolding loop_continue [OF Some continue] by auto
    qed
  qed
qed

lemma executions_split:
  "executions (snd (execute_code_loop cu self logs_all ex blocks))
     = executions self
       @ new_executions self (snd (execute_code_loop cu self logs_all ex blocks))"
  using loop_prefix [of cu self logs_all ex blocks] by (auto simp: new_executions_def)

lemma new_executions_continue:
  assumes "executions self1 = executions self @ [x]"
  shows "new_executions self (snd (execute_code_loop cu self1 logs_all ex bs))
           = x # new_executions self1 (snd (execute_code_loop cu self1 logs_all ex bs))"
proof -
  obtain new where "executions (snd (execute_code_loop cu self1 logs_all ex bs))
      = executions self1 @ new"
    using loop_prefix by blast
  then show ?thesis by (simp add: new_executions_def assms)
qed

lemma loop_calls:
  assumes "work_dir s0 = work_dir self"
  shows "let new = new_executions self (snd (execute_code_loop cu self logs_all ex blocks)) in
          length new \<le> length blocks
          \<and> (\<forall>k < length new.
                block_call cu (s0\<lparr>use_docker := ec_use_docker (fst (new ! k))\<rparr>) (blocks ! k)
                  = Some (fst (new ! k)))"
  using assms
proof (induction blocks arbitrary: self logs_all ex)
  case Nil
  show ?case by (simp add: new_executions_def split: option.splits)
next
  case (Cons b bs)
  show ?case
  proof (cases "block_call cu self b")
    case None
    then show ?thesis by (simp add: new_executions_def)
  next
    case (Some c)
    then have "ec_use_docker c = use_docker self" by (simp add: block_call_fields)
    with Cons.prems have head: "block_call cu (s0\<lparr>use_docker := ec_use_docker c\<rparr>) b = Some c"
      using block_call_agent [of "s0\<lparr>use_docker := ec_use_docker c\<rparr>" self cu b] Some by simp
    from Some show ?thesis
    proof (cases rule: loop_cases)
      case (raise e m i w')
      show ?thesis unfolding loop_raise [OF Some raise] using head
        by (simp add: new_executions_def)
    next
      case (stop e t i w')
      show ?thesis unfolding loop_stop [OF Some stop] using head
        by (simp add: new_executions_def)
    next
      case (continue t i w')
      define self1 where "self1 = self\<lparr> world := w',
        executions := executions self @ [(c, (0, Utf8 t, i))], use_docker := i \<rparr>"
      have ex1: "executions self1 = executions self @ [(c, (0, Utf8 t, i))]"
        by (simp add: self1_def)
      have "work_dir s0 = work_dir self1" using Cons.prems by (simp add: self1_def)
      from Cons.IH [OF this, of "logs_all @ [LF] @ t" "Some 0"]
      show ?thesis
        unfolding loop_continue [OF Some continue] self1_def [symmetric]
          new_executions_continue [OF ex1] Let_def
        using head by (auto simp: nth_Cons')
    qed
  qed
qed

lemma loop_service:
  "let self' = snd (execute_code_loop cu self logs_all ex blocks);
       new = new_executions self self' in
     map snd new = service_results cu (world self) (map fst new)
     \<and> world self' = service_world cu (world self) (map fst new)"
proof (induction blocks arbitrary: self logs_all ex)
  case Nil
  show ?case by (simp add: new_executions_def split: option.splits)
next
  case (Cons b bs)
  show ?case
  proof (cases "block_call cu self b")
    case None
    then show ?thesis by (simp add: new_executions_def)
  next
    case (Some c)
    then show ?thesis
    proof (cases rule: loop_cases)
      case (raise e m i w')
      show ?thesis unfolding loop_raise [OF Some raise] using raise
        by (simp add: new_executions_def)
    next
      case (stop e t i w')
      show ?thesis unfolding loop_stop [OF Some stop] using stop
        by (simp add: new_executions_def)
    next
      case (continue t i w')
      define self1 where "self1 = self\<lparr> world := w',
        executions := executions self @ [(c, (0, Utf8 t, i))], use_docker := i \<rparr>"
      have ex1: "executions self1 = executions self @ [(c, (0, Utf8 t, i))]"
        by (simp add: self1_def)
      have w1: "world self1 = w'" by (simp add: self1_def)
      from Cons.IH [of self1 "logs_all @ [LF] @ t" "Some 0"]
      show ?thesis
        unfolding loop_continue [OF Some continue] self1_def [symmetric]
          new_executions_continue [OF ex1] Let_def
        using continue w1 by simp
    qed
  qed
qed

lemma loop_run:
  assumes "\<forall>b \<in> set blocks. recognized cu b"
  shows "let new = new_executions self (snd (execute_code_loop cu self logs_all ex blocks)) in
          (\<forall>x \<in> set (butlast new). exit_of x = 0 \<and> decodes x)
          \<and> (new = [] \<or> (exit_of (last new) = 0 \<and> decodes (last new))
               \<longrightarrow> length new = length blocks)
          \<and> fst (execute_code_loop cu self logs_all ex blocks)
              = (if new = [] then
                   (case ex of
                      None \<Rightarrow> Inl (UnboundLocalError
                        ''local variable 'exitcode' referenced before assignment'')
                    | Some e \<Rightarrow> Inr (e, logs_all))
                 else
                   (case decode (log_of (last new)) of
                      Inl e \<Rightarrow> Inl e
                    | Inr t \<Rightarrow> Inr (exit_of (last new),
                                    logs_all @ concat (map (\<lambda>x. LF # text_of x) new))))"
  using assms
proof (induction blocks arbitrary: self logs_all ex)
  case Nil
  show ?case by (simp add: new_executions_def split: option.splits)
next
  case (Cons b bs)
  from Cons.prems have "recognized cu b" by simp
  then obtain c where c: "block_call cu self b = Some c"
    using block_call_recognized [of cu b self] by auto
  then show ?case
  proof (cases rule: loop_cases)
    case (raise e m i w')
    show ?thesis unfolding loop_raise [OF c raise]
      by (simp add: new_executions_def exit_of_def log_of_def decodes_def decode_def)
  next
    case (stop e t i w')
    show ?thesis unfolding loop_stop [OF c stop] using stop(2)
      by (simp add: new_executions_def exit_of_def log_of_def decodes_def decode_def text_of_def)
  next
    case (continue t i w')
    define x where "x = (c, (0 :: int, Utf8 t, i))"
    define self1 where "self1 = self\<lparr> world := w',
      executions := executions self @ [x], use_docker := i \<rparr>"
    define new1 where "new1 = new_executions self1
      (snd (execute_code_loop cu self1 (logs_all @ [LF] @ t) (Some 0) bs))"
    have ex1: "executions self1 = executions self @ [x]"
      by (simp add: self1_def)
    have x: "exit_of x = 0" "decodes x" "text_of x = t" "decode (log_of x) = Inr t"
      by (simp_all add: x_def exit_of_def log_of_def decodes_def text_of_def decode_def)
    from Cons.prems have "\<forall>b \<in> set bs. recognized cu b" by simp
    note IH = Cons.IH [OF this, of self1 "logs_all @ [LF] @ t" "Some 0",
        unfolded Let_def, folded new1_def]
    have step: "execute_code_loop cu self logs_all ex (b # bs)
        = execute_code_loop cu self1 (logs_all @ [LF] @ t) (Some 0) bs"
      unfolding self1_def x_def by (rule loop_continue [OF c continue])
    have new: "new_executions self
          (snd (execute_code_loop cu self1 (logs_all @ [LF] @ t) (Some 0) bs)) = x # new1"
      unfolding new1_def by (rule new_executions_continue [OF ex1])
    show ?thesis
    proof (cases "new1 = []")
      case True
      with IH x show ?thesis unfolding step Let_def unfolding new by simp
    next
      case False
      with IH x show ?thesis unfolding step Let_def unfolding new
        by (simp split: sum.splits)
    qed
  qed
qed

lemma loop_docker_chain:
  "let self' = snd (execute_code_loop cu self logs_all ex blocks);
       new = new_executions self self' in
     (\<forall>k < length new. ec_use_docker (fst (new ! k))
          = (if k = 0 then use_docker self else image_of (new ! (k - 1))))
     \<and> use_docker self'
         = (if new = [] then use_docker self
            else if decodes (last new) then image_of (last new)
            else ec_use_docker (fst (last new)))"
proof (induction blocks arbitrary: self logs_all ex)
  case Nil
  show ?case by (simp add: new_executions_def split: option.splits)
next
  case (Cons b bs)
  show ?case
  proof (cases "block_call cu self b")
    case None
    then show ?thesis by (simp add: new_executions_def)
  next
    case (Some c)
    then have flag: "ec_use_docker c = use_docker self" by (simp add: block_call_fields)
    from Some show ?thesis
    proof (cases rule: loop_cases)
      case (raise e m i w')
      show ?thesis unfolding loop_raise [OF Some raise] using flag
        by (simp add: new_executions_def decodes_def log_of_def)
    next
      case (stop e t i w')
      show ?thesis unfolding loop_stop [OF Some stop] using flag
        by (simp add: new_executions_def decodes_def log_of_def image_of_def)
    next
      case (continue t i w')
      define self1 where "self1 = self\<lparr> world := w',
        executions := executions self @ [(c, (0, Utf8 t, i))], use_docker := i \<rparr>"
      have ex1: "executions self1 = executions self @ [(c, (0, Utf8 t, i))]"
        by (simp add: self1_def)
      have d1: "use_docker self1 = i" by (simp add: self1_def)
      from Cons.IH [of self1 "logs_all @ [LF] @ t" "Some 0"]
      show ?thesis
        unfolding loop_continue [OF Some continue] self1_def [symmetric]
          new_executions_continue [OF ex1] Let_def
        using flag d1 by (auto simp: image_of_def decodes_def log_of_def nth_Cons')
    qed
  qed
qed

section \<open>What replying leaves alone\<close>

lemma send_fields:
  "consecutive_auto_reply_counter (send p r self) = consecutive_auto_reply_counter self"
  "prompts (send p r self) = prompts self"
  "outbox (send p r self) = outbox self @ [(p, r)]"
  "executions (send p r self) = executions self"
  by (simp_all add: send_def)

lemma loop_frame:
  "consecutive_auto_reply_counter (snd (execute_code_loop cu self logs_all ex blocks))
     = consecutive_auto_reply_counter self
   \<and> prompts (snd (execute_code_loop cu self logs_all ex blocks)) = prompts self
   \<and> outbox (snd (execute_code_loop cu self logs_all ex blocks)) = outbox self"
proof (induction blocks arbitrary: self logs_all ex)
  case Nil
  show ?case by (simp split: option.splits)
next
  case (Cons b bs)
  show ?case
  proof (cases "block_call cu self b")
    case None
    then show ?thesis by simp
  next
    case (Some c)
    then show ?thesis
    proof (cases rule: loop_cases)
      case (raise e m i w')
      show ?thesis unfolding loop_raise [OF Some raise] by simp
    next
      case (stop e t i w')
      show ?thesis unfolding loop_stop [OF Some stop] by simp
    next
      case (continue t i w')
      from Cons.IH [of "self\<lparr> world := w', executions := executions self @ [(c, (0, Utf8 t, i))],
                     use_docker := i \<rparr>" "logs_all @ [LF] @ t" "Some 0"]
      show ?thesis unfolding loop_continue [OF Some continue] by simp
    qed
  qed
qed

lemma execute_function_frame:
  "consecutive_auto_reply_counter (snd (execute_function self fc))
     = consecutive_auto_reply_counter self
   \<and> prompts (snd (execute_function self fc)) = prompts self
   \<and> outbox (snd (execute_function self fc)) = outbox self"
  by (auto simp: execute_function_def Let_def split: option.splits sum.splits prod.splits)

lemma auto_reply_frame:
  "consecutive_auto_reply_counter (snd (auto_reply cu self msg sender d))
     = consecutive_auto_reply_counter self
   \<and> prompts (snd (auto_reply cu self msg sender d)) = prompts self"
proof (cases "function_call msg")
  case (Some fc)
  obtain res self' where ef: "execute_function self fc = (res, self')"
    by (cases "execute_function self fc")
  with execute_function_frame [of self fc]
  have "consecutive_auto_reply_counter self' = consecutive_auto_reply_counter self"
    "prompts self' = prompts self" by simp_all
  with Some ef show ?thesis
    by (auto simp: auto_reply_def send_fields split: sum.splits prod.splits)
next
  case None
  show ?thesis
  proof (cases "content msg")
    case nc: None
    with None show ?thesis by (simp add: auto_reply_def)
  next
    case (Some body)
    obtain res self' where ec: "self_execute_code cu self (extract_code cu body) = (res, self')"
      by (cases "self_execute_code cu self (extract_code cu body)")
    with loop_frame [of cu self "[]" None "extract_code cu body"]
    have "consecutive_auto_reply_counter self' = consecutive_auto_reply_counter self"
      "prompts self' = prompts self" by (simp_all add: self_execute_code_def)
    with None Some ec show ?thesis
      by (auto simp: auto_reply_def Let_def send_fields split: sum.splits prod.splits)
  qed
qed

lemma receive_counter_step:
  "consecutive_auto_reply_counter (snd (receive cu self m sender human))
     = (consecutive_auto_reply_counter self)
         (sender := if resets_counter self (normalize m) sender human then 0
                    else consecutive_auto_reply_counter self sender + 1)"
proof (cases "resets_counter self (normalize m) sender human")
  case True
  then show ?thesis
    by (auto simp: receive_def obtain_reply_def resets_counter_def limit_or_termination_def
        set_counter_def send_fields Let_def split: if_splits)
next
  case False
  then have "receive cu self m sender human
      = auto_reply cu
          (set_counter sender (consecutive_auto_reply_counter self sender + 1)
             (if human_input_mode self = ''ALWAYS'' then self\<lparr>prompts := prompts self + 1\<rparr>
              else self))
          (normalize m) sender []"
    by (auto simp: receive_def obtain_reply_def resets_counter_def limit_or_termination_def
        set_counter_def Let_def split: if_splits)
  with False show ?thesis
    by (simp add: auto_reply_frame set_counter_def)
qed

lemma receive_nonneg:
  assumes "\<forall>s. 0 \<le> consecutive_auto_reply_counter self s"
  shows "\<forall>s. 0 \<le> consecutive_auto_reply_counter (snd (receive cu self m sender human)) s"
  using assms by (simp add: receive_counter_step)

lemma receive_all_nonneg:
  "\<forall>s. 0 \<le> consecutive_auto_reply_counter self s \<Longrightarrow>
   \<forall>s. 0 \<le> consecutive_auto_reply_counter (receive_all cu self evs) s"
proof (induction evs arbitrary: self)
  case Nil
  then show ?case by simp
next
  case (Cons ev evs)
  obtain m sender human where ev: "ev = (m, sender, human)" by (cases ev)
  from Cons.prems have "\<forall>s. 0 \<le> consecutive_auto_reply_counter
      (snd (receive cu self m sender human)) s"
    by (rule receive_nonneg)
  from Cons.IH [OF this] show ?case by (simp add: ev)
qed


section \<open>The function-call path\<close>

text \<open>The example agent is what \<^verbatim>\<open>__init__\<close> returns for a well-formed function map.\<close>

lemma demo_agent_init:
  "list_all (\<lambda>(f, e). entry_ok e) fmap \<Longrightarrow>
   init None mode fmap (Some limit) None True default_interpreter 0
     = Inr (demo_agent mode limit fmap)"
  by (simp add: init_def demo_agent_def)

text \<open>
  The first example of the docstring: the call with the arguments
  \<^verbatim>\<open>{ "num_to_be_added": 5 }\<close> succeeds with the content \<^verbatim>\<open>15\<close>.
\<close>

lemma execute_function_docstring_example:
  \<open>fst (execute_function (demo_agent ''ALWAYS'' 100 add_num_map)
          \<lparr> fc_name = Some ''add_num'', fc_arguments = Some ''{ "num_to_be_added": 5 }'' \<rparr>)
     = Inr (True, \<lparr> rd_name = ''add_num'', rd_role = ''function'', rd_content = ''15'' \<rparr>)\<close>
  by code_simp

text \<open>
  When the name is registered and the parsed arguments are a mapping, the method returns
  a pair whose result names the function and has the role \<^verbatim>\<open>function\<close>.
\<close>

lemma execute_function_returns_on_dict:
  assumes "map_of (function_map self) n = Some func_dict"
    and "extract_args (interp self) a = Inr (JObj ms)"
  shows "\<exists>ok r. fst (execute_function self \<lparr> fc_name = Some n, fc_arguments = Some a \<rparr>)
                  = Inr (ok, r)
              \<and> rd_name r = n \<and> rd_role r = ''function''"
  using assms
  by (auto simp: execute_function_def dict_update_def Let_def
      split: option.splits sum.splits prod.splits)

text \<open>
  When the name is registered and the parsed arguments are any other JSON value, merging
  raises \<^verbatim>\<open>AttributeError\<close>, the exception leaves the method, and the agent is as
  before.
\<close>

lemma execute_function_raises_on_non_dict:
  assumes "map_of (function_map self) n = Some func_dict"
    and "extract_args (interp self) a = Inr v"
    and "\<forall>ms. v \<noteq> JObj ms"
  shows "\<exists>m. execute_function self \<lparr> fc_name = Some n, fc_arguments = Some a \<rparr>
              = (Inl (AttributeError m), self)"
  using assms
  by (cases v) (simp_all add: execute_function_def dict_update_def)

text \<open>
  C1. The claim: for a registered name, \<^verbatim>\<open>_execute_function\<close> returns a pair and
  never raises, also when merging the arguments fails. The code merges before its
  \<^verbatim>\<open>try\<close>: for the registered \<^verbatim>\<open>add_num\<close> and the arguments
  \<^verbatim>\<open>[5]\<close>, which decode to a list, \<^verbatim>\<open>arguments.update\<close> raises
  \<^verbatim>\<open>AttributeError\<close> and the exception leaves the method.
\<close>

theorem execute_function_raises_on_list_arguments:
  \<open>fst (execute_function (demo_agent ''ALWAYS'' 100 add_num_map)
          \<lparr> fc_name = Some ''add_num'', fc_arguments = Some ''[5]'' \<rparr>)
     = Inl (AttributeError
         ([SQ] @ ''list'' @ [SQ] @ '' object has no attribute '' @ [SQ] @ ''update'' @ [SQ]))\<close>
  by code_simp


section \<open>The code-execution path\<close>

text \<open>
  A block in an unrecognised language at the head of the blocks ends the method with
  \<^verbatim>\<open>ValueError\<close>, whatever follows it, and the agent is as before.
\<close>

lemma unknown_language_raises:
  "\<not> recognized cu b \<Longrightarrow>
   self_execute_code cu self (b # bs)
     = (Inl (ValueError ''not enough values to unpack (expected 3, got 2)''), self)"
  by (simp add: self_execute_code_def block_call_unrecognized)

text \<open>
  C2. The claim: a block in an unrecognised language gives a failed result with exit code
  1 and a message, without a call of the execution service and without an exception. In
  the code the branch binds a pair to three names: for the one block
  \<^verbatim>\<open>("ruby", "puts 1")\<close> the method raises \<^verbatim>\<open>ValueError\<close>; the execution
  service is not called.
\<close>

theorem unknown_language_raises_ValueError:
  "fst (self_execute_code demo_utils (demo_agent ''ALWAYS'' 100 []) [(''ruby'', ''puts 1'')])
     = Inl (ValueError ''not enough values to unpack (expected 3, got 2)'')
   \<and> executions (snd (self_execute_code demo_utils (demo_agent ''ALWAYS'' 100 [])
        [(''ruby'', ''puts 1'')])) = []"
  by code_simp


text \<open>
  C5, the claim as stated fails. The claim: for every non-empty sequence of recognised
  blocks \<^verbatim>\<open>_execute_code\<close> returns an exit code with the logs of the blocks it
  executed. The log of a call is decoded as UTF-8 before anything else is done with it.
  For the one shell block \<^verbatim>\<open>cat photo.jpg\<close>, whose output is not UTF-8, the service
  is called, decoding raises \<^verbatim>\<open>UnicodeDecodeError\<close>, and the method returns nothing.
\<close>

theorem undecodable_log_raises_counterexample:
  "binary_output \<noteq> []
   \<and> length binary_output = 1
   \<and> recognized demo_utils (binary_output ! 0)
   \<and> fst (self_execute_code demo_utils (demo_agent ''NEVER'' 1 []) binary_output)
       = Inl (UnicodeDecodeError ([SQ] @ ''utf-8'' @ [SQ]
           @ '' codec can't decode byte 0xff in position 0: invalid start byte''))
   \<and> map (ec_code \<circ> fst)
         (executions (snd (self_execute_code demo_utils (demo_agent ''NEVER'' 1 [])
            binary_output)))
       = [''cat photo.jpg'']"
  by code_simp

text \<open>
  C5, amended. For a non-empty sequence of recognised blocks, the calls of the execution
  service that \<^verbatim>\<open>_execute_code\<close> makes are the calls for a prefix of the blocks, in
  order, and at least one is made. What is recorded as their results is what the service
  returns for these calls, made one after the other from the world in which the method
  starts, and the world afterwards is the one these calls leave. Every call but the last
  returned exit code 0 and a log that is UTF-8; if the last one did too, every block was
  executed. When the log of the last call is UTF-8, the method returns the exit code of
  the last call with the decoded logs of exactly these calls, each after a line feed;
  when it is not, the method raises \<^verbatim>\<open>UnicodeDecodeError\<close>. So the run stops at the
  first block that fails or whose log does not decode, and no later block is executed.
\<close>

theorem execute_code_short_circuit:
  assumes "code_blocks \<noteq> []"
    and "\<forall>b \<in> set code_blocks. recognized cu b"
  shows "let run = self_execute_code cu self code_blocks;
             new = new_executions self (snd run) in
           executions (snd run) = executions self @ new
           \<and> new \<noteq> []
           \<and> length new \<le> length code_blocks
           \<and> (\<forall>k < length new.
                 block_call cu (self\<lparr>use_docker := ec_use_docker (fst (new ! k))\<rparr>)
                     (code_blocks ! k)
                   = Some (fst (new ! k)))
           \<and> map snd new = service_results cu (world self) (map fst new)
           \<and> world (snd run) = service_world cu (world self) (map fst new)
           \<and> (\<forall>x \<in> set (butlast new). exit_of x = 0 \<and> decodes x)
           \<and> (exit_of (last new) = 0 \<and> decodes (last new)
                \<longrightarrow> length new = length code_blocks)
           \<and> fst run
               = (case decode (log_of (last new)) of
                    Inl e \<Rightarrow> Inl e
                  | Inr t \<Rightarrow> Inr (exit_of (last new),
                                  concat (map (\<lambda>x. LF # text_of x) new)))"
proof -
  define new where
    "new = new_executions self (snd (execute_code_loop cu self [] None code_blocks))"
  from loop_run [OF assms(2), of self "[]" None]
  have run: "\<forall>x \<in> set (butlast new). exit_of x = 0 \<and> decodes x"
    "new = [] \<or> (exit_of (last new) = 0 \<and> decodes (last new))
       \<longrightarrow> length new = length code_blocks"
    "fst (execute_code_loop cu self [] None code_blocks)
       = (if new = [] then Inl (UnboundLocalError
              ''local variable 'exitcode' referenced before assignment'')
          else
            (case decode (log_of (last new)) of
               Inl e \<Rightarrow> Inl e
             | Inr t \<Rightarrow> Inr (exit_of (last new),
                             [] @ concat (map (\<lambda>x. LF # text_of x) new))))"
    unfolding new_def Let_def by simp_all
  from run(2) assms(1) have nonempty: "new \<noteq> []" by auto
  from loop_calls [of self self cu "[]" None code_blocks]
  have calls: "length new \<le> length code_blocks"
    "\<forall>k < length new.
       block_call cu (self\<lparr>use_docker := ec_use_docker (fst (new ! k))\<rparr>) (code_blocks ! k)
         = Some (fst (new ! k))"
    unfolding new_def Let_def by simp_all
  from loop_service [of cu self "[]" None code_blocks]
  have service: "map snd new = service_results cu (world self) (map fst new)"
    "world (snd (execute_code_loop cu self [] None code_blocks))
       = service_world cu (world self) (map fst new)"
    unfolding new_def Let_def by simp_all
  have split: "executions (snd (execute_code_loop cu self [] None code_blocks))
      = executions self @ new"
    unfolding new_def by (rule executions_split)
  from run(3) nonempty
  have result: "fst (execute_code_loop cu self [] None code_blocks)
       = (case decode (log_of (last new)) of
            Inl e \<Rightarrow> Inl e
          | Inr t \<Rightarrow> Inr (exit_of (last new), concat (map (\<lambda>x. LF # text_of x) new)))"
    by (simp split: sum.splits)
  from run(1,2) nonempty calls service split result show ?thesis
    unfolding self_execute_code_def Let_def new_def [symmetric] by simp
qed

text \<open>
  C5, amended, at a concrete input: a Python block that succeeds, a shell block that
  fails and another Python block. The first two are executed, the exit code of the second
  is returned with the logs of the two, and the service has been called twice.
\<close>

theorem execute_code_short_circuit_witness:
  "failing_second \<noteq> []
   \<and> recognized demo_utils (failing_second ! 0)
   \<and> recognized demo_utils (failing_second ! 1)
   \<and> recognized demo_utils (failing_second ! 2)
   \<and> length failing_second = 3
   \<and> fst (self_execute_code demo_utils (demo_agent ''NEVER'' 1 []) failing_second)
       = Inr (1, LF # ''ran print(1)'' @ LF # ''ran exit 1'')
   \<and> map (ec_code \<circ> fst)
         (executions (snd (self_execute_code demo_utils (demo_agent ''NEVER'' 1 [])
            failing_second)))
       = [''print(1)'', ''exit 1'']
   \<and> world (snd (self_execute_code demo_utils (demo_agent ''NEVER'' 1 []) failing_second)) = 2"
proof -
  have h1: "failing_second \<noteq> []" by code_simp
  have h2: "\<forall>b \<in> set failing_second. recognized demo_utils b" by code_simp
  have new: "new_executions (demo_agent ''NEVER'' 1 [])
        (snd (self_execute_code demo_utils (demo_agent ''NEVER'' 1 []) failing_second))
      = [(\<lparr> ec_code = ''print(1)'', ec_work_dir = None, ec_filename = None,
            ec_use_docker = Flag True, ec_lang = None \<rparr>,
          (0, Utf8 ''ran print(1)'', Image ''python:3-slim'')),
         (\<lparr> ec_code = ''exit 1'', ec_work_dir = None, ec_filename = None,
            ec_use_docker = Image ''python:3-slim'', ec_lang = Some ''sh'' \<rparr>,
          (1, Utf8 ''ran exit 1'', Image ''python:3-alpine''))]"
    by code_simp
  have start: "executions (demo_agent ''NEVER'' 1 []) = []" by code_simp
  have served: "service_world demo_utils (world (demo_agent ''NEVER'' 1 []))
      [\<lparr> ec_code = ''print(1)'', ec_work_dir = None, ec_filename = None,
          ec_use_docker = Flag True, ec_lang = None \<rparr>,
       \<lparr> ec_code = ''exit 1'', ec_work_dir = None, ec_filename = None,
          ec_use_docker = Image ''python:3-slim'', ec_lang = Some ''sh'' \<rparr>] = 2"
    by code_simp
  have r0: "recognized demo_utils (failing_second ! 0)" by code_simp
  have r1: "recognized demo_utils (failing_second ! 1)" by code_simp
  have r2: "recognized demo_utils (failing_second ! 2)" by code_simp
  have len: "length failing_second = 3" by code_simp
  note run = execute_code_short_circuit [OF h1 h2, of "demo_agent ''NEVER'' 1 []",
      unfolded Let_def new]
  have "executions (snd (self_execute_code demo_utils (demo_agent ''NEVER'' 1 [])
            failing_second))
      = executions (demo_agent ''NEVER'' 1 [])
        @ [(\<lparr> ec_code = ''print(1)'', ec_work_dir = None, ec_filename = None,
            ec_use_docker = Flag True, ec_lang = None \<rparr>,
          (0, Utf8 ''ran print(1)'', Image ''python:3-slim'')),
         (\<lparr> ec_code = ''exit 1'', ec_work_dir = None, ec_filename = None,
            ec_use_docker = Image ''python:3-slim'', ec_lang = Some ''sh'' \<rparr>,
          (1, Utf8 ''ran exit 1'', Image ''python:3-alpine''))]"
    by (rule run [THEN conjunct1])
  then have codes: "map (ec_code \<circ> fst)
         (executions (snd (self_execute_code demo_utils (demo_agent ''NEVER'' 1 [])
            failing_second)))
       = [''print(1)'', ''exit 1'']"
    by (simp add: start)
  have "world (snd (self_execute_code demo_utils (demo_agent ''NEVER'' 1 []) failing_second))
      = service_world demo_utils (world (demo_agent ''NEVER'' 1 []))
          (map fst
            [(\<lparr> ec_code = ''print(1)'', ec_work_dir = None, ec_filename = None,
                ec_use_docker = Flag True, ec_lang = None \<rparr>,
              (0, Utf8 ''ran print(1)'', Image ''python:3-slim'')),
             (\<lparr> ec_code = ''exit 1'', ec_work_dir = None, ec_filename = None,
                ec_use_docker = Image ''python:3-slim'', ec_lang = Some ''sh'' \<rparr>,
              (1 :: int, Utf8 ''ran exit 1'', Image ''python:3-alpine''))])"
    by (rule run [THEN conjunct2, THEN conjunct2, THEN conjunct2, THEN conjunct2,
        THEN conjunct2, THEN conjunct1])
  then have calls: "world (snd (self_execute_code demo_utils (demo_agent ''NEVER'' 1 [])
      failing_second)) = 2"
    using served by simp
  have result: "fst (self_execute_code demo_utils (demo_agent ''NEVER'' 1 []) failing_second)
       = Inr (1, LF # ''ran print(1)'' @ LF # ''ran exit 1'')"
    using run [THEN conjunct2, THEN conjunct2, THEN conjunct2, THEN conjunct2,
        THEN conjunct2, THEN conjunct2, THEN conjunct2, THEN conjunct2]
    by (simp add: exit_of_def log_of_def text_of_def decode_def)
  from h1 r0 r1 r2 len result codes calls show ?thesis by blast
qed

text \<open>
  C8, the claim as stated fails. The claim: the flag passed as \<^verbatim>\<open>use_docker\<close> to
  every call is the value set at construction, and executing blocks does not change it.
  With two shell blocks, the second call is given the image that the first call returned,
  and the attribute is no longer the value of construction afterwards.
\<close>

theorem use_docker_overwritten_counterexample:
  "use_docker (demo_agent ''NEVER'' 1 []) = Flag True
   \<and> map (ec_use_docker \<circ> fst)
        (executions (snd (self_execute_code demo_utils (demo_agent ''NEVER'' 1 [])
           two_shell_blocks)))
      = [Flag True, Image ''python:3-alpine'']
   \<and> use_docker (snd (self_execute_code demo_utils (demo_agent ''NEVER'' 1 [])
        two_shell_blocks))
      \<noteq> use_docker (demo_agent ''NEVER'' 1 [])"
  by code_simp

text \<open>
  C8, amended. The agent has one attribute for both. What is recorded as the results of
  the calls of the execution service is what the service returns for them. Every call is
  given the current value of \<^verbatim>\<open>use_docker\<close>, which is the value of construction for
  the first call and the image returned by the call before for every later one. After
  \<^verbatim>\<open>_execute_code\<close> the attribute is the image returned by the last call when the
  log of that call is UTF-8; when it is not, decoding raises before the assignment and the
  attribute is still what the last call was given; it is unchanged when no call was made.
\<close>

theorem use_docker_threaded:
  "let self' = snd (self_execute_code cu self code_blocks);
       new = new_executions self self' in
     executions self' = executions self @ new
     \<and> map snd new = service_results cu (world self) (map fst new)
     \<and> (\<forall>k < length new. ec_use_docker (fst (new ! k))
          = (if k = 0 then use_docker self else image_of (new ! (k - 1))))
     \<and> use_docker self'
         = (if new = [] then use_docker self
            else if decodes (last new) then image_of (last new)
            else ec_use_docker (fst (last new)))"
  using loop_docker_chain [of cu self "[]" None code_blocks]
    loop_service [of cu self "[]" None code_blocks]
    executions_split [of cu self "[]" None code_blocks]
  unfolding self_execute_code_def Let_def by simp

text \<open>
  C8, amended, at two inputs. Of the three blocks, the Python block is given the flag of
  construction and returns one image, the shell block is given that image and returns
  another, which is the attribute afterwards. After the block whose output is not UTF-8
  the attribute is still the flag of construction.
\<close>

theorem use_docker_threaded_witness:
  "map (ec_use_docker \<circ> fst)
       (new_executions (demo_agent ''NEVER'' 1 [])
          (snd (self_execute_code demo_utils (demo_agent ''NEVER'' 1 []) failing_second)))
     = [Flag True, Image ''python:3-slim'']
   \<and> use_docker (snd (self_execute_code demo_utils (demo_agent ''NEVER'' 1 [])
        failing_second))
     = Image ''python:3-alpine''
   \<and> map (image_of)
       (new_executions (demo_agent ''NEVER'' 1 [])
          (snd (self_execute_code demo_utils (demo_agent ''NEVER'' 1 []) binary_output)))
     = [Image ''python:3-alpine'']
   \<and> use_docker (snd (self_execute_code demo_utils (demo_agent ''NEVER'' 1 [])
        binary_output))
     = Flag True"
proof -
  have new: "new_executions (demo_agent ''NEVER'' 1 [])
        (snd (self_execute_code demo_utils (demo_agent ''NEVER'' 1 []) failing_second))
      = [(\<lparr> ec_code = ''print(1)'', ec_work_dir = None, ec_filename = None,
            ec_use_docker = Flag True, ec_lang = None \<rparr>,
          (0, Utf8 ''ran print(1)'', Image ''python:3-slim'')),
         (\<lparr> ec_code = ''exit 1'', ec_work_dir = None, ec_filename = None,
            ec_use_docker = Image ''python:3-slim'', ec_lang = Some ''sh'' \<rparr>,
          (1, Utf8 ''ran exit 1'', Image ''python:3-alpine''))]"
    by code_simp
  have raised: "new_executions (demo_agent ''NEVER'' 1 [])
        (snd (self_execute_code demo_utils (demo_agent ''NEVER'' 1 []) binary_output))
      = [(\<lparr> ec_code = ''cat photo.jpg'', ec_work_dir = None, ec_filename = None,
            ec_use_docker = Flag True, ec_lang = Some ''sh'' \<rparr>,
          (0, NotUtf8 ([SQ] @ ''utf-8'' @ [SQ]
             @ '' codec can't decode byte 0xff in position 0: invalid start byte''),
           Image ''python:3-alpine''))]"
    by code_simp
  note run = use_docker_threaded [of demo_utils "demo_agent ''NEVER'' 1 []" failing_second,
      unfolded Let_def new, THEN conjunct2, THEN conjunct2, THEN conjunct2]
  note stopped = use_docker_threaded [of demo_utils "demo_agent ''NEVER'' 1 []" binary_output,
      unfolded Let_def raised, THEN conjunct2, THEN conjunct2, THEN conjunct2]
  have after_run: "use_docker (snd (self_execute_code demo_utils (demo_agent ''NEVER'' 1 [])
        failing_second)) = Image ''python:3-alpine''"
    using run by (simp add: image_of_def decodes_def log_of_def)
  have after_raise: "use_docker (snd (self_execute_code demo_utils (demo_agent ''NEVER'' 1 [])
        binary_output)) = Flag True"
    using stopped by (simp add: image_of_def decodes_def log_of_def)
  from after_run after_raise show ?thesis
    by (simp add: new raised image_of_def)
qed

text \<open>
  C9. The claim: a Python block that starts with \<^verbatim>\<open># filename: <name>\<close> is
  executed with the whole \<^verbatim>\<open><name>\<close> as file name, whether or not a line feed
  follows. Without a line feed \<^verbatim>\<open>code.find("\n")\<close> is -1 and the slice drops the
  last character: for the code \<^verbatim>\<open># filename: a.py\<close> the service is called with
  the file name \<^verbatim>\<open>a.p\<close>.
\<close>

theorem filename_directive_without_newline_truncated:
  "map (ec_filename \<circ> fst)
     (executions (snd (self_execute_code demo_utils (demo_agent ''ALWAYS'' 100 [])
        [(''python'', ''# filename: a.py'')])))
   = [Some ''a.p'']"
  by code_simp

lemma directive_prefix_no_LF: "LF \<notin> set ''# filename: ''"
  by (simp add: LF_def)

text \<open>
  With a line feed after the directive, the file name is the rest of the first line
  without the white space around it.
\<close>

lemma directive_filename_line:
  assumes "LF \<notin> set nm"
  shows "directive_filename (''# filename: '' @ nm @ LF # rest) = Some (py_strip ('' '' @ nm))"
proof -
  let ?P = "\<lambda>x. x \<noteq> LF"
  let ?code = "''# filename: '' @ nm @ LF # rest"
  have all: "\<forall>x \<in> set (''# filename: '' @ nm). ?P x"
    using assms directive_prefix_no_LF by auto
  have "takeWhile ?P ((''# filename: '' @ nm) @ LF # rest) = takeWhile ?P (''# filename: '' @ nm)"
    by (rule takeWhile_tail) simp
  also have "\<dots> = ''# filename: '' @ nm"
    using all by (simp only: takeWhile_eq_all_conv)
  finally have tw: "length (takeWhile ?P ?code) = 12 + length nm"
    by simp
  have mem: "LF \<in> set ?code" by simp
  have start: "take 12 ?code = ''# filename: ''" by simp
  have find: "py_find LF ?code = 12 + int (length nm)"
    unfolding py_find_def using mem tw by simp
  have len: "int (length ?code) = 13 + int (length nm) + int (length rest)" by simp
  have b1: "py_bound ?code 11 = 11"
    unfolding py_bound_def Let_def len by simp
  have b2: "py_bound ?code (12 + int (length nm)) = 12 + length nm"
    unfolding py_bound_def Let_def len by simp
  have "py_slice ?code 11 (py_find LF ?code) = take (Suc (length nm)) (drop 11 ?code)"
    unfolding py_slice_def find b1 b2 by simp
  also have "drop 11 ?code = '' '' @ nm @ LF # rest" by simp
  also have "take (Suc (length nm)) ('' '' @ nm @ LF # rest) = '' '' @ nm" by simp
  finally show ?thesis
    unfolding directive_filename_def using start by simp
qed

text \<open>
  Without a line feed, the last character of the code is not part of the name.
\<close>

lemma directive_filename_no_newline:
  assumes "LF \<notin> set nm"
  shows "directive_filename (''# filename: '' @ nm) = Some (py_strip (butlast ('' '' @ nm)))"
proof -
  let ?code = "''# filename: '' @ nm"
  have nomem: "LF \<notin> set ?code"
    using assms directive_prefix_no_LF by simp
  have start: "take 12 ?code = ''# filename: ''" by simp
  have find: "py_find LF ?code = - 1"
    unfolding py_find_def using nomem by simp
  have len: "int (length ?code) = 12 + int (length nm)" by simp
  have b1: "py_bound ?code 11 = 11"
    unfolding py_bound_def Let_def len by simp
  have b2: "py_bound ?code (- 1) = 11 + length nm"
    unfolding py_bound_def Let_def len by simp
  have "py_slice ?code 11 (py_find LF ?code) = take (length nm) (drop 11 ?code)"
    unfolding py_slice_def find b1 b2 by simp
  also have "drop 11 ?code = '' '' @ nm" by simp
  also have "take (length nm) ('' '' @ nm) = butlast ('' '' @ nm)"
    by (simp add: butlast_conv_take)
  finally show ?thesis
    unfolding directive_filename_def using start by simp
qed

text \<open>Without the directive there is no file name.\<close>

lemma directive_filename_absent:
  "take 12 code \<noteq> ''# filename: '' \<Longrightarrow> directive_filename code = None"
  by (simp add: directive_filename_def)

text \<open>
  Two blocks seen by the execution service: a directive followed by a line feed, and an
  untagged block without a directive.
\<close>

lemma filename_directive_with_newline:
  "map (ec_filename \<circ> fst)
     (executions (snd (self_execute_code demo_utils (demo_agent ''ALWAYS'' 100 [])
        [(''python'', ''# filename: a.py'' @ [LF] @ ''print(1)''), ([], ''print(2)'')])))
   = [Some ''a.py'', None]"
  by code_simp


text \<open>
  C7. The claim: on valid JSON without line feeds, decoding the normalised string gives
  what decoding the string gives, also with escaped backslashes and tabs. The quote test
  of \<^verbatim>\<open>_format_json_str\<close> looks at one character before the quote only, so the
  quote that closes a string ending in an escaped backslash is not seen, and a tab after
  it is rewritten as if it were inside a string. The input has no line feed and decodes
  to a mapping with two keys; its normalised form has a backslash and \<^verbatim>\<open>t\<close>
  between the tokens, does not decode, and the parser returns the empty mapping.
\<close>

theorem format_json_str_breaks_valid_json:
  \<open>LF \<notin> set tab_after_backslash
   \<and> loads default_interpreter tab_after_backslash
       = Inr (JObj [(codes ''a'', JStr (codes [BSL])), (codes ''b'', JStr (codes ''c''))])
   \<and> format_json_str tab_after_backslash
       = ''{"a":"'' @ [BSL, BSL] @ ''",'' @ [BSL, CHR ''t''] @ ''"b":"c"}''
   \<and> loads default_interpreter (format_json_str tab_after_backslash) = Inl JSONDecodeError
   \<and> extract_args default_interpreter tab_after_backslash = Inr (JObj [])\<close>
  by code_simp


section \<open>The turn controller\<close>

text \<open>
  C3, the claim as stated fails. The claim: the counter is reset only by a human reply
  \<^verbatim>\<open>exit\<close>, by a non-empty human reply that is sent, or by a termination message
  with no human reply. In mode \<^verbatim>\<open>NEVER\<close> with the counter at the maximum, a message
  that is no termination message resets the counter from 1 to 0, and no human was asked.
\<close>

theorem counter_reset_without_human_counterexample:
  "consecutive_auto_reply_counter (after_one_auto_reply ''NEVER'') ''bob'' = 1
   \<and> consecutive_auto_reply_counter
        (snd (receive demo_utils (after_one_auto_reply ''NEVER'') hello ''bob'' [])) ''bob'' = 0
   \<and> \<not> spec_reset
          (prompts (snd (receive demo_utils (after_one_auto_reply ''NEVER'') hello ''bob'' []))
             \<noteq> prompts (after_one_auto_reply ''NEVER''))
          []
          (is_termination_msg (after_one_auto_reply ''NEVER'') (normalize hello))"
  by code_simp

text \<open>
  C3, amended. After \<^verbatim>\<open>receive\<close> for a sender, the counters of all other senders are
  as before, and the counter of the sender is 0 or one more than before. It is 0 exactly
  when, in mode \<^verbatim>\<open>ALWAYS\<close>, the human typed anything or the message is a termination
  message, and in the other modes, when the counter had reached the maximum or the
  message is a termination message, whether or not a human is asked then and whatever
  the answer is. Counters that are non-negative stay non-negative over any sequence of
  calls.
\<close>

theorem receive_counter:
  "consecutive_auto_reply_counter (snd (receive cu self m sender human))
     = (consecutive_auto_reply_counter self)
         (sender := if resets_counter self (normalize m) sender human then 0
                    else consecutive_auto_reply_counter self sender + 1)
   \<and> ((\<forall>s. 0 \<le> consecutive_auto_reply_counter self s) \<longrightarrow>
        (\<forall>s. 0 \<le> consecutive_auto_reply_counter (receive_all cu self evs) s))"
  using receive_counter_step [of cu self m sender human] receive_all_nonneg [of self cu evs]
  by blast

text \<open>
  C3, amended, at a concrete run: from the counters of a new agent, two messages from
  \<^verbatim>\<open>bob\<close> in mode \<^verbatim>\<open>NEVER\<close>; the first one is answered automatically and
  makes the counter 1.
\<close>

theorem receive_counter_witness:
  "(\<forall>s. 0 \<le> consecutive_auto_reply_counter (demo_agent ''NEVER'' 1 []) s)
   \<and> (\<forall>s. 0 \<le> consecutive_auto_reply_counter
         (receive_all demo_utils (demo_agent ''NEVER'' 1 [])
            [(hello, ''bob'', []), (hello, ''bob'', [])]) s)
   \<and> consecutive_auto_reply_counter
        (snd (receive demo_utils (demo_agent ''NEVER'' 1 []) hello ''bob'' [])) ''bob'' = 1"
proof -
  have h: "\<forall>s. 0 \<le> consecutive_auto_reply_counter (demo_agent ''NEVER'' 1 []) s"
    by (simp add: demo_agent_def)
  have no_reset: "\<not> resets_counter (demo_agent ''NEVER'' 1 []) (normalize hello) ''bob'' []"
    by code_simp
  have zero: "consecutive_auto_reply_counter (demo_agent ''NEVER'' 1 []) ''bob'' = 0"
    by (simp add: demo_agent_def)
  from receive_counter [of demo_utils "demo_agent ''NEVER'' 1 []" hello "''bob''" "[]"
      "[(hello, ''bob'', []), (hello, ''bob'', [])]"]
  show ?thesis using h no_reset zero by simp
qed


text \<open>
  C4, the claim as stated fails. The claim includes mode \<^verbatim>\<open>TERMINATE\<close> with the
  counter at the maximum and an empty human reply: the counter should go up by one and
  an automatic reply should be made. The code replaces the empty reply by
  \<^verbatim>\<open>exit\<close> there: the human is asked, the counter goes from 1 to 0 and nothing is
  sent.
\<close>

theorem terminate_mode_empty_reply_counterexample:
  "human_input_mode (after_one_auto_reply ''TERMINATE'') = ''TERMINATE''
   \<and> \<not> is_termination_msg (after_one_auto_reply ''TERMINATE'') (normalize hello)
   \<and> consecutive_auto_reply_counter (after_one_auto_reply ''TERMINATE'') ''bob''
        = max_consecutive_auto_reply (after_one_auto_reply ''TERMINATE'')
   \<and> consecutive_auto_reply_counter (after_one_auto_reply ''TERMINATE'') ''bob'' = 1
   \<and> consecutive_auto_reply_counter
        (snd (receive demo_utils (after_one_auto_reply ''TERMINATE'') hello ''bob'' [])) ''bob'' = 0
   \<and> outbox (snd (receive demo_utils (after_one_auto_reply ''TERMINATE'') hello ''bob'' []))
        = outbox (after_one_auto_reply ''TERMINATE'')
   \<and> prompts (snd (receive demo_utils (after_one_auto_reply ''TERMINATE'') hello ''bob'' []))
        = prompts (after_one_auto_reply ''TERMINATE'') + 1"
  by code_simp

text \<open>
  C4, amended. When the message is no termination message and either the mode is
  \<^verbatim>\<open>ALWAYS\<close> and the human typed nothing, or the mode is another one and the
  counter of the sender is below the maximum (so that no human is asked), then
  \<^verbatim>\<open>receive\<close> is \<^verbatim>\<open>auto_reply\<close> with the empty default reply, run on the agent
  with the counter of the sender one higher, and the counter is one higher afterwards.
  In mode \<^verbatim>\<open>TERMINATE\<close>, when the counter of the sender has reached the maximum and
  the human who is asked types nothing, \<^verbatim>\<open>receive\<close> ends without an exception and
  leaves the agent as it was but for the prompt that is counted and the counter of the
  sender, which is zero: no automatic reply is made and nothing is sent.
\<close>

theorem receive_auto_reply:
  "(\<not> is_termination_msg self (normalize m)
    \<and> ((human_input_mode self = ''ALWAYS'' \<and> human = [])
        \<or> (human_input_mode self \<noteq> ''ALWAYS''
            \<and> consecutive_auto_reply_counter self sender < max_consecutive_auto_reply self))
    \<longrightarrow> receive cu self m sender human
           = auto_reply cu
               (set_counter sender (consecutive_auto_reply_counter self sender + 1)
                  (if human_input_mode self = ''ALWAYS''
                   then self\<lparr>prompts := prompts self + 1\<rparr> else self))
               (normalize m) sender []
         \<and> consecutive_auto_reply_counter (snd (receive cu self m sender human)) sender
             = consecutive_auto_reply_counter self sender + 1)
   \<and> (human_input_mode self = ''TERMINATE''
      \<and> max_consecutive_auto_reply self \<le> consecutive_auto_reply_counter self sender
      \<and> human = []
      \<longrightarrow> receive cu self m sender human
            = (None, set_counter sender 0 (self\<lparr>prompts := prompts self + 1\<rparr>)))"
proof (intro conjI impI)
  assume a: "\<not> is_termination_msg self (normalize m)
    \<and> ((human_input_mode self = ''ALWAYS'' \<and> human = [])
        \<or> (human_input_mode self \<noteq> ''ALWAYS''
            \<and> consecutive_auto_reply_counter self sender < max_consecutive_auto_reply self))"
  then show eq: "receive cu self m sender human
           = auto_reply cu
               (set_counter sender (consecutive_auto_reply_counter self sender + 1)
                  (if human_input_mode self = ''ALWAYS''
                   then self\<lparr>prompts := prompts self + 1\<rparr> else self))
               (normalize m) sender []"
    by (auto simp: receive_def obtain_reply_def limit_or_termination_def
        set_counter_def Let_def split: if_splits)
  show "consecutive_auto_reply_counter (snd (receive cu self m sender human)) sender
             = consecutive_auto_reply_counter self sender + 1"
    unfolding eq by (simp add: auto_reply_frame set_counter_def)
next
  assume "human_input_mode self = ''TERMINATE''
      \<and> max_consecutive_auto_reply self \<le> consecutive_auto_reply_counter self sender
      \<and> human = []"
  then show "receive cu self m sender human
            = (None, set_counter sender 0 (self\<lparr>prompts := prompts self + 1\<rparr>))"
    by (simp add: receive_def obtain_reply_def limit_or_termination_def Let_def)
qed

text \<open>
  C4, amended, at a concrete run in mode \<^verbatim>\<open>TERMINATE\<close> with the maximum 2. The
  second message from \<^verbatim>\<open>bob\<close> finds the counter at 1, below the maximum: the
  counter becomes 2 and the empty default reply is sent. The third finds it at the
  maximum: the human is asked, the counter becomes 0 and nothing is sent.
\<close>

theorem receive_auto_reply_witness:
  "\<not> is_termination_msg (after_hellos ''TERMINATE'' 1) (normalize hello)
   \<and> human_input_mode (after_hellos ''TERMINATE'' 1) \<noteq> ''ALWAYS''
   \<and> consecutive_auto_reply_counter (after_hellos ''TERMINATE'' 1) ''bob'' = 1
   \<and> max_consecutive_auto_reply (after_hellos ''TERMINATE'' 1) = 2
   \<and> consecutive_auto_reply_counter (after_hellos ''TERMINATE'' 2) ''bob'' = 2
   \<and> outbox (after_hellos ''TERMINATE'' 2) = [(PText [], ''bob''), (PText [], ''bob'')]
   \<and> prompts (after_hellos ''TERMINATE'' 2) = 0
   \<and> human_input_mode (after_hellos ''TERMINATE'' 2) = ''TERMINATE''
   \<and> max_consecutive_auto_reply (after_hellos ''TERMINATE'' 2) = 2
   \<and> fst (receive demo_utils (after_hellos ''TERMINATE'' 2) hello ''bob'' []) = None
   \<and> consecutive_auto_reply_counter
        (snd (receive demo_utils (after_hellos ''TERMINATE'' 2) hello ''bob'' [])) ''bob'' = 0
   \<and> outbox (snd (receive demo_utils (after_hellos ''TERMINATE'' 2) hello ''bob'' []))
        = [(PText [], ''bob''), (PText [], ''bob'')]
   \<and> prompts (snd (receive demo_utils (after_hellos ''TERMINATE'' 2) hello ''bob'' [])) = 1"
proof -
  have h1: "\<not> is_termination_msg (after_hellos ''TERMINATE'' 1) (normalize hello)"
    by code_simp
  have h2: "human_input_mode (after_hellos ''TERMINATE'' 1) \<noteq> ''ALWAYS''"
    by code_simp
  have one: "consecutive_auto_reply_counter (after_hellos ''TERMINATE'' 1) ''bob'' = 1"
    by code_simp
  have limit: "max_consecutive_auto_reply (after_hellos ''TERMINATE'' 1) = 2"
    by code_simp
  have sent: "outbox (snd (auto_reply demo_utils
        (set_counter ''bob'' (1 + 1) (after_hellos ''TERMINATE'' 1)) (normalize hello) ''bob'' []))
      = [(PText [], ''bob''), (PText [], ''bob'')]"
    by code_simp
  have asked: "prompts (snd (auto_reply demo_utils
        (set_counter ''bob'' (1 + 1) (after_hellos ''TERMINATE'' 1)) (normalize hello) ''bob'' []))
      = 0"
    by code_simp
  have not_always: "(human_input_mode (after_hellos ''TERMINATE'' 1) = ''ALWAYS'') = False"
    using h2 by simp
  have below: "consecutive_auto_reply_counter (after_hellos ''TERMINATE'' 1) ''bob''
      < max_consecutive_auto_reply (after_hellos ''TERMINATE'' 1)"
    unfolding one limit by simp
  have next_state: "after_hellos ''TERMINATE'' 2
      = snd (receive demo_utils (after_hellos ''TERMINATE'' 1) hello ''bob'' [])"
    by (simp add: numeral_2_eq_2)
  note part1 = receive_auto_reply [where cu = demo_utils and human = "[]"
      and self = "after_hellos ''TERMINATE'' 1" and m = hello and sender = "''bob''",
      THEN conjunct1, rule_format, OF conjI [OF h1 disjI2 [OF conjI [OF h2 below]]],
      unfolded not_always if_False one]
  have two: "consecutive_auto_reply_counter (after_hellos ''TERMINATE'' 2) ''bob'' = 2"
    unfolding next_state using part1 [THEN conjunct2] by simp
  have out2: "outbox (after_hellos ''TERMINATE'' 2) = [(PText [], ''bob''), (PText [], ''bob'')]"
    unfolding next_state part1 [THEN conjunct1] by (rule sent)
  have prompts2: "prompts (after_hellos ''TERMINATE'' 2) = 0"
    unfolding next_state part1 [THEN conjunct1] by (rule asked)
  have mode2: "human_input_mode (after_hellos ''TERMINATE'' 2) = ''TERMINATE''"
    by code_simp
  have limit2: "max_consecutive_auto_reply (after_hellos ''TERMINATE'' 2) = 2"
    by code_simp
  have reached: "max_consecutive_auto_reply (after_hellos ''TERMINATE'' 2)
      \<le> consecutive_auto_reply_counter (after_hellos ''TERMINATE'' 2) ''bob''"
    unfolding two limit2 by simp
  note part2 = receive_auto_reply [where cu = demo_utils and human = "[]"
      and self = "after_hellos ''TERMINATE'' 2" and m = hello and sender = "''bob''",
      THEN conjunct2, rule_format, OF conjI [OF mode2 conjI [OF reached refl]]]
  have stop: "fst (receive demo_utils (after_hellos ''TERMINATE'' 2) hello ''bob'' []) = None"
    "consecutive_auto_reply_counter
        (snd (receive demo_utils (after_hellos ''TERMINATE'' 2) hello ''bob'' [])) ''bob'' = 0"
    "outbox (snd (receive demo_utils (after_hellos ''TERMINATE'' 2) hello ''bob'' []))
        = [(PText [], ''bob''), (PText [], ''bob'')]"
    "prompts (snd (receive demo_utils (after_hellos ''TERMINATE'' 2) hello ''bob'' [])) = 1"
    unfolding part2 by (simp_all add: set_counter_def out2 prompts2)
  from h1 h2 one limit two out2 prompts2 mode2 limit2 stop show ?thesis by blast
qed


text \<open>
  C10. In mode \<^verbatim>\<open>NEVER\<close>, on a message that satisfies the termination predicate,
  \<^verbatim>\<open>receive\<close> ends without an exception, asks for no human input, sends nothing and
  sets the counter of the sender to zero.
\<close>

theorem receive_never_termination:
  assumes "human_input_mode self = ''NEVER''"
    and "is_termination_msg self (normalize m)"
  shows "fst (receive cu self m sender human) = None
         \<and> prompts (snd (receive cu self m sender human)) = prompts self
         \<and> outbox (snd (receive cu self m sender human)) = outbox self
         \<and> consecutive_auto_reply_counter (snd (receive cu self m sender human)) sender = 0"
  using assms
  by (simp add: receive_def obtain_reply_def limit_or_termination_def set_counter_def Let_def)

text \<open>
  C10, at the bare text \<^verbatim>\<open>TERMINATE\<close> under the default predicate, received after
  one message that was answered automatically: the counter of the sender goes from 1 to 0,
  and the reply sent before stays the only one.
\<close>

theorem receive_never_termination_witness:
  "human_input_mode (after_hellos ''NEVER'' 1) = ''NEVER''
   \<and> is_termination_msg (after_hellos ''NEVER'' 1) (normalize (Str ''TERMINATE''))
   \<and> consecutive_auto_reply_counter (after_hellos ''NEVER'' 1) ''bob'' = 1
   \<and> consecutive_auto_reply_counter (after_hellos ''NEVER'' 1) ''bob''
        < max_consecutive_auto_reply (after_hellos ''NEVER'' 1)
   \<and> fst (receive demo_utils (after_hellos ''NEVER'' 1) (Str ''TERMINATE'') ''bob'' []) = None
   \<and> prompts (snd (receive demo_utils (after_hellos ''NEVER'' 1) (Str ''TERMINATE'') ''bob'' []))
        = 0
   \<and> outbox (snd (receive demo_utils (after_hellos ''NEVER'' 1) (Str ''TERMINATE'') ''bob'' []))
        = [(PText [], ''bob'')]
   \<and> consecutive_auto_reply_counter
        (snd (receive demo_utils (after_hellos ''NEVER'' 1) (Str ''TERMINATE'') ''bob'' []))
        ''bob'' = 0"
proof -
  have h1: "human_input_mode (after_hellos ''NEVER'' 1) = ''NEVER''"
    by code_simp
  have h2: "is_termination_msg (after_hellos ''NEVER'' 1) (normalize (Str ''TERMINATE''))"
    by code_simp
  have start: "consecutive_auto_reply_counter (after_hellos ''NEVER'' 1) ''bob'' = 1"
    "consecutive_auto_reply_counter (after_hellos ''NEVER'' 1) ''bob''
        < max_consecutive_auto_reply (after_hellos ''NEVER'' 1)"
    "prompts (after_hellos ''NEVER'' 1) = 0"
    "outbox (after_hellos ''NEVER'' 1) = [(PText [], ''bob'')]"
    by code_simp+
  from receive_never_termination [OF h1 h2, of demo_utils "''bob''" "[]"] h1 h2 start
  show ?thesis by simp
qed

end
